theory Spec2Isabelle
  imports Main "HOL-Library.Word"
begin

unbundle bit_operations_syntax

section \<open>Machine types, error codes and byte order\<close>

type_synonym byte = "8 word"
type_synonym u32 = "32 word"
type_synonym u64 = "64 word"

text \<open>
  The C functions return \<open>0\<close> or a negated error number.  The model returns a sum:
  \<open>Inl e\<close> for \<open>return -e\<close>, \<open>Inr v\<close> for \<open>return 0\<close> together with
  what the function stored through its return parameters.
\<close>

datatype errno = ENOMEM | EIO | EINVAL | ENODATA | ERANGE | EROFS | EFSCORRUPTED

text \<open>
  A little-endian field of the disk is decoded from its bytes, lowest byte first:
  \<open>le32_to_cpu\<close> reads four bytes, \<open>le64_to_cpu\<close> eight.
\<close>

fun le_to_cpu :: "byte list \<Rightarrow> 'a::len word" where
  "le_to_cpu [] = 0"
| "le_to_cpu (b # bs) = ucast b OR push_bit 8 (le_to_cpu bs)"

definition le32_to_cpu :: "byte list \<Rightarrow> u32" where
  "le32_to_cpu bs = le_to_cpu (take 4 bs)"

definition le64_to_cpu :: "byte list \<Rightarrow> u64" where
  "le64_to_cpu bs = le_to_cpu (take 8 bs)"

section \<open>super.c: the Fletcher-64 checksum\<close>

text \<open>
  \<open>apfs_fletcher64 (addr, len)\<close>: \<open>addr\<close> is the memory from the pointer on, as bytes;
  \<open>buff[i]\<close> is the \<open>i\<close>-th 32-bit little-endian word of it.  The loop runs over
  \<open>i = 0 .. len / sizeof(u32) - 1\<close> with 64-bit sums that wrap around;
  \<open>do_div (n, base)\<close> returns the remainder of the unsigned division.
\<close>

definition buff_at :: "byte list \<Rightarrow> nat \<Rightarrow> u32" where
  "buff_at addr i = le32_to_cpu (drop (4 * i) addr)"

definition fletcher_step :: "byte list \<Rightarrow> nat \<Rightarrow> u64 \<times> u64 \<Rightarrow> u64 \<times> u64" where
  "fletcher_step addr i s =
     (let sum1 = fst s + ucast (buff_at addr i);
          sum2 = snd s + sum1
      in (sum1, sum2))"

definition do_div_rem :: "u64 \<Rightarrow> u64 \<Rightarrow> u64" where
  "do_div_rem n base = n mod base"

definition fletcher_finish :: "u64 \<times> u64 \<Rightarrow> u64" where
  "fletcher_finish s =
     (let sum1 = fst s; sum2 = snd s;
          c1 = sum1 + sum2;
          c1 = 0xFFFFFFFF - do_div_rem c1 0xFFFFFFFF;
          c2 = sum1 + c1;
          c2 = 0xFFFFFFFF - do_div_rem c2 0xFFFFFFFF
      in push_bit 32 c2 OR c1)"

definition apfs_fletcher64 :: "byte list \<Rightarrow> nat \<Rightarrow> u64" where
  "apfs_fletcher64 addr len =
     fletcher_finish (fold (fletcher_step addr) [0 ..< len div 4] (0, 0))"

text \<open>
  The reference definition, in the words of the specification: the buffer as little-endian
  32-bit words, \<open>sum1 += word\<close> and \<open>sum2 += sum1\<close> over the natural numbers (no
  reduction of any kind inside the loop), then \<open>c1\<close>, \<open>c2\<close> and \<open>(c2 << 32) | c1\<close>.
\<close>

fun le32_words :: "byte list \<Rightarrow> nat list" where
  "le32_words (b0 # b1 # b2 # b3 # bs) =
     (unat b0 + 2 ^ 8 * unat b1 + 2 ^ 16 * unat b2 + 2 ^ 24 * unat b3) # le32_words bs"
| "le32_words _ = []"

fun ref_sums :: "nat list \<Rightarrow> nat \<times> nat \<Rightarrow> nat \<times> nat" where
  "ref_sums [] s = s"
| "ref_sums (w # ws) s = ref_sums ws (fst s + w, snd s + (fst s + w))"

definition ref_finish :: "nat \<times> nat \<Rightarrow> nat" where
  "ref_finish s =
     (let sum1 = fst s; sum2 = snd s;
          c1 = 0xFFFFFFFF - (sum1 + sum2) mod 0xFFFFFFFF;
          c2 = 0xFFFFFFFF - (sum1 + c1) mod 0xFFFFFFFF
      in push_bit 32 c2 OR c1)"

definition fletcher64_ref :: "byte list \<Rightarrow> nat" where
  "fletcher64_ref bs = ref_finish (ref_sums (le32_words bs) (0, 0))"

section \<open>Structures\<close>

text \<open>
  The structures of \<open>apfs.h\<close> and of the kernel, with the fields the two files use.
  On-disk structures hold the decoded (CPU byte order) value of each field; the raw bytes
  of a block are kept where the code works on them.
\<close>

record apfs_nx_superblock =
  nx_magic :: u32
  nx_block_size :: u32
  nx_block_count :: u64
  nx_omap_oid :: u64
  nx_fs_oid :: "u64 list"

record apfs_omap_phys =
  om_tree_oid :: u64

record apfs_superblock =
  apfs_magic :: u32
  apfs_fs_alloc_count :: u64
  apfs_num_files :: u64
  apfs_num_directories :: u64
  apfs_num_symlinks :: u64
  apfs_num_other_fsobjects :: u64
  apfs_vol_uuid :: "byte list"

text \<open>\<open>struct apfs_node\<close>: \<open>bh\<close> stands for \<open>bh->b_data\<close>, the bytes of the block.\<close>

record apfs_node =
  block_nr :: u64
  node_id :: u64
  bh :: "byte list"

record apfs_table =
  t_node :: apfs_node
  t_records :: nat

text \<open>The in-memory extent of \<open>extents.h\<close>, and the on-disk record it is read from.\<close>

record apfs_file_extent =
  logical_addr :: u64
  phys_block_num :: u64
  len :: u64

datatype apfs_type =
  APFS_TYPE_INODE | APFS_TYPE_XATTR | APFS_TYPE_FILE_EXTENT | APFS_TYPE_DIR_REC
| APFS_TYPE_OTHER nat

text \<open>
  A leaf record of the catalog as a query exposes it: the record kind and owner of its key
  header, the lengths \<open>key_len\<close> and \<open>len\<close> of its key and value, and the fields the
  overlays \<open>struct apfs_file_extent_key\<close> (at \<open>raw + key_off\<close>) and
  \<open>struct apfs_file_extent_val\<close> (at \<open>raw + off\<close>) read.
\<close>

record apfs_query =
  q_type :: apfs_type
  q_id :: u64
  q_key_len :: nat
  q_len :: nat
  key_logical_addr :: u64
  len_and_flags :: u64
  val_phys_block_num :: u64
  crypto_id :: u64

record apfs_key =
  k_id :: u64
  k_type :: apfs_type
  k_number :: u64

text \<open>
  The catalog tree that hangs from \<open>s_cat_root\<close>, as the B-tree engine meets it: the
  failure of a read or of a structural check on the way down, if any, and the leaf records.
\<close>

record apfs_btree =
  bt_fault :: "errno option"
  bt_records :: "apfs_query list"

datatype apfs_flag = APFS_UID_OVERRIDE | APFS_GID_OVERRIDE

record apfs_sb_info =
  s_msb_raw :: apfs_nx_superblock
  s_vsb_raw :: apfs_superblock
  s_mnode :: apfs_node
  s_cat_root :: apfs_btree
  s_nodesize :: u64
  s_nodesize_bits :: nat
  s_vol_nr :: u32
  s_flags :: "apfs_flag set"
  s_uid :: u32
  s_gid :: u32

record super_block =
  s_blocksize :: u64
  s_blocksize_bits :: nat
  s_magic :: u64
  s_rdonly :: bool
  s_fs_info :: apfs_sb_info

text \<open>\<open>struct apfs_inode_info\<close> with the fields of its \<open>vfs_inode\<close> that are used.\<close>

record inode =
  i_ino :: u64
  i_blkbits :: nat
  i_sb :: super_block
  i_extent_id :: u64
  i_cached_extent :: apfs_file_extent

record buffer_head =
  b_size :: u64
  b_blocknr :: u64
  b_mapped :: bool

record kstatfs =
  f_type :: u64
  f_bsize :: u64
  f_blocks :: u64
  f_bfree :: u64
  f_bavail :: u64
  f_files :: u64
  f_ffree :: u64
  f_fsid :: "u32 \<times> u32"
  f_namelen :: u64

datatype token = Opt_uid | Opt_gid | Opt_vol | Opt_err

section \<open>The environment of the two files\<close>

text \<open>
  What the kernel and the other files of the module answer.  Each field is the result of
  one external call: an allocation that succeeds or not, \<open>sb_set_blocksize\<close> (the block
  size bits on success), \<open>sb_bread\<close> at a block size and block number (the bytes of the
  block, or a failed read), the overlay of a structure of \<open>apfs.h\<close> on the bytes of a
  block, \<open>apfs_read_table\<close> and \<open>apfs_table_locate_data\<close> of \<open>table.c\<close>,
  \<open>match_token\<close> and \<open>match_int\<close> of the kernel's option parser (the token with the
  text of its argument; the integer or the error), \<open>make_kuid\<close>/\<open>make_kgid\<close> (the id,
  or nothing when it is not valid), the value of \<open>APFS_SUPER_MAGIC\<close>, and the steps of the
  mount that follow option parsing (\<open>apfs_map_volume_super\<close>, \<open>apfs_read_omap\<close>,
  \<open>apfs_read_catalog\<close>, \<open>apfs_iget\<close>, \<open>d_make_root\<close>, with their unwinding).
\<close>

record env =
  kzalloc_sbi :: "apfs_sb_info option"
  kmalloc_key :: bool
  apfs_alloc_query :: bool
  sb_set_blocksize :: "int \<Rightarrow> nat option"
  sb_bread :: "u64 \<Rightarrow> u64 \<Rightarrow> byte list option"
  as_nx_superblock :: "byte list \<Rightarrow> apfs_nx_superblock"
  as_omap_phys :: "byte list \<Rightarrow> apfs_omap_phys"
  as_superblock :: "byte list \<Rightarrow> apfs_superblock"
  apfs_read_table :: "u64 \<Rightarrow> errno + apfs_table"
  apfs_table_locate_data :: "apfs_table \<Rightarrow> nat \<Rightarrow> int \<times> nat"
  match_token :: "string \<Rightarrow> (token \<times> string option) list \<Rightarrow> token \<times> string"
  match_int :: "string \<Rightarrow> errno + int"
  make_kuid :: "int \<Rightarrow> u32 option"
  make_kgid :: "int \<Rightarrow> u32 option"
  APFS_SUPER_MAGIC :: u64
  mount_volume :: "super_block \<Rightarrow> errno + super_block"

section \<open>super.c: mapping the container superblock\<close>

text \<open>
  Modelled from the spec: the constants \<open>APFS_MAX_CKSUM_SIZE\<close>, \<open>APFS_NX_MAGIC\<close>,
  \<open>APFS_NX_BLOCK_NUM\<close> and \<open>APFS_NX_DEFAULT_BLOCK_SIZE\<close> of \<open>apfs.h\<close>, which is not
  among the sources.  The checksum is the first 8 bytes of an object and covers the bytes
  after them; the container superblock is block 0 with magic \<open>NXSB\<close>, little-endian
  \<open>0x4253584E\<close>; the block size assumed before the superblock is read is the smallest
  one an image may declare, 4096.
\<close>

definition APFS_MAX_CKSUM_SIZE :: nat where
  "APFS_MAX_CKSUM_SIZE = 8"

definition APFS_NX_MAGIC :: u64 where
  "APFS_NX_MAGIC = 0x4253584E"

definition APFS_NX_BLOCK_NUM :: u64 where
  "APFS_NX_BLOCK_NUM = 0"

definition APFS_NX_DEFAULT_BLOCK_SIZE :: int where
  "APFS_NX_DEFAULT_BLOCK_SIZE = 4096"

text \<open>
  \<open>apfs_obj_verify_csum (sb, obj)\<close>: \<open>obj\<close> is the bytes of the object; \<open>o_cksum\<close> is
  its first field.
\<close>

definition apfs_obj_verify_csum :: "super_block \<Rightarrow> byte list \<Rightarrow> bool" where
  "apfs_obj_verify_csum sb obj =
     (le64_to_cpu obj =
      apfs_fletcher64 (drop APFS_MAX_CKSUM_SIZE obj)
        (unat (s_blocksize sb - of_nat APFS_MAX_CKSUM_SIZE)))"

definition set_blocksize :: "env \<Rightarrow> super_block \<Rightarrow> int \<Rightarrow> super_block option" where
  "set_blocksize h sb sz =
     (case sb_set_blocksize h sz of
        None \<Rightarrow> None
      | Some bits \<Rightarrow> Some (sb\<lparr>s_blocksize := of_int sz, s_blocksize_bits := bits\<rparr>))"

text \<open>
  The checks of \<open>apfs_map_main_super\<close> once the block has been read with the final block
  size (from \<open>sb->s_magic = ...\<close> on).  \<open>err\<close> is \<open>-EINVAL\<close> throughout the function.
\<close>

definition check_main_super :: "env \<Rightarrow> super_block \<Rightarrow> byte list \<Rightarrow> errno + super_block" where
  "check_main_super h sb b_data =
     (let msb_raw = as_nx_superblock h b_data;
          sb = sb\<lparr>s_magic := ucast (nx_magic msb_raw)\<rparr>
      in if s_magic sb \<noteq> APFS_NX_MAGIC then Inl EINVAL
         else if \<not> apfs_obj_verify_csum sb b_data then Inl EINVAL
         else Inr (sb\<lparr>s_fs_info := (s_fs_info sb)\<lparr>
                s_msb_raw := msb_raw,
                s_mnode := \<lparr>block_nr = APFS_NX_BLOCK_NUM,
                            node_id = le64_to_cpu (drop 8 b_data), bh = b_data\<rparr>\<rparr>\<rparr>))"

definition apfs_map_main_super :: "env \<Rightarrow> super_block \<Rightarrow> errno + super_block" where
  "apfs_map_main_super h sb =
     (case set_blocksize h sb APFS_NX_DEFAULT_BLOCK_SIZE of
        None \<Rightarrow> Inl EINVAL
      | Some sb \<Rightarrow>
         (case sb_bread h (s_blocksize sb) APFS_NX_BLOCK_NUM of
            None \<Rightarrow> Inl EINVAL
          | Some b_data \<Rightarrow>
             (let blocksize = sint (nx_block_size (as_nx_superblock h b_data))
              in if s_blocksize sb \<noteq> of_int blocksize then
                   (case set_blocksize h sb blocksize of
                      None \<Rightarrow> Inl EINVAL
                    | Some sb \<Rightarrow>
                       (case sb_bread h (s_blocksize sb) APFS_NX_BLOCK_NUM of
                          None \<Rightarrow> Inl EINVAL
                        | Some b_data \<Rightarrow> check_main_super h sb b_data))
                 else check_main_super h sb b_data)))"

section \<open>super.c: mount options\<close>

definition tokens :: "(token \<times> string option) list" where
  "tokens = [(Opt_uid, Some ''uid=%u''), (Opt_gid, Some ''gid=%u''),
             (Opt_vol, Some ''vol=%u''), (Opt_err, None)]"

text \<open>
  The pieces that successive calls \<open>strsep (&options, ",")\<close> return, in order, until it
  returns \<open>NULL\<close>: the text between the commas, the empty pieces included.
\<close>

fun strsep_all :: "string \<Rightarrow> string list" where
  "strsep_all [] = [[]]"
| "strsep_all (c # cs) =
     (if c = CHR '','' then [] # strsep_all cs
      else (case strsep_all cs of
              [] \<Rightarrow> [[c]]
            | p # ps \<Rightarrow> (c # p) # ps))"

text \<open>One turn of the \<open>while\<close> loop of \<open>parse_options\<close> on the piece \<open>p\<close>.\<close>

definition parse_option :: "env \<Rightarrow> apfs_sb_info \<Rightarrow> string \<Rightarrow> errno + apfs_sb_info" where
  "parse_option h sbi p =
     (if p = [] then Inr sbi
      else
        (case match_token h p tokens of
           (Opt_uid, arg) \<Rightarrow>
             (case match_int h arg of
                Inl err \<Rightarrow> Inl err
              | Inr option \<Rightarrow>
                 (case make_kuid h option of
                    None \<Rightarrow> Inl EINVAL
                  | Some uid \<Rightarrow>
                      Inr (sbi\<lparr>s_uid := uid,
                                s_flags := insert APFS_UID_OVERRIDE (s_flags sbi)\<rparr>)))
         | (Opt_gid, arg) \<Rightarrow>
             (case match_int h arg of
                Inl err \<Rightarrow> Inl err
              | Inr option \<Rightarrow>
                 (case make_kgid h option of
                    None \<Rightarrow> Inl EINVAL
                  | Some gid \<Rightarrow>
                      Inr (sbi\<lparr>s_gid := gid,
                                s_flags := insert APFS_GID_OVERRIDE (s_flags sbi)\<rparr>)))
         | (Opt_vol, arg) \<Rightarrow>
             (case match_int h arg of
                Inl err \<Rightarrow> Inl err
              | Inr option \<Rightarrow> Inr (sbi\<lparr>s_vol_nr := of_int option\<rparr>))
         | (Opt_err, arg) \<Rightarrow> Inl EINVAL))"

fun parse_pieces :: "env \<Rightarrow> apfs_sb_info \<Rightarrow> string list \<Rightarrow> errno + apfs_sb_info" where
  "parse_pieces h sbi [] = Inr sbi"
| "parse_pieces h sbi (p # ps) =
     (case parse_option h sbi p of
        Inl err \<Rightarrow> Inl err
      | Inr sbi \<Rightarrow> parse_pieces h sbi ps)"

text \<open>\<open>options\<close> is \<open>None\<close> for the \<open>NULL\<close> pointer.\<close>

definition parse_options :: "env \<Rightarrow> apfs_sb_info \<Rightarrow> string option \<Rightarrow> errno + apfs_sb_info" where
  "parse_options h sbi options =
     (let sbi = sbi\<lparr>s_vol_nr := 0, s_flags := {}\<rparr>
      in case options of
           None \<Rightarrow> Inr sbi
         | Some opts \<Rightarrow> parse_pieces h sbi (strsep_all opts))"

section \<open>super.c: the mount\<close>

definition apfs_fill_super :: "env \<Rightarrow> super_block \<Rightarrow> string option \<Rightarrow> errno + super_block" where
  "apfs_fill_super h sb data =
     (let sb = sb\<lparr>s_rdonly := True\<rparr>
      in case kzalloc_sbi h of
           None \<Rightarrow> Inl ENOMEM
         | Some sbi \<Rightarrow>
            (case apfs_map_main_super h (sb\<lparr>s_fs_info := sbi\<rparr>) of
               Inl err \<Rightarrow> Inl err
             | Inr sb \<Rightarrow>
                (let sb = sb\<lparr>s_fs_info := (s_fs_info sb)\<lparr>
                            s_nodesize := s_blocksize sb,
                            s_nodesize_bits := s_blocksize_bits sb\<rparr>\<rparr>
                 in case parse_options h (s_fs_info sb) data of
                      Inl err \<Rightarrow> Inl err
                    | Inr sbi \<Rightarrow> mount_volume h (sb\<lparr>s_fs_info := sbi\<rparr>))))"

section \<open>super.c: statfs\<close>

text \<open>
  The \<open>for\<close> loop of \<open>apfs_count_used_blocks\<close> over the records \<open>i\<close> still to visit, with
  the running \<open>*count\<close>.
\<close>

fun count_records :: "env \<Rightarrow> super_block \<Rightarrow> apfs_table \<Rightarrow> nat list \<Rightarrow> u64 \<Rightarrow> errno + u64" where
  "count_records h sb vtable [] count = Inr count"
| "count_records h sb vtable (i # rest) count =
     (case apfs_table_locate_data h vtable i of
        (ln, off) \<Rightarrow>
          if ln \<noteq> 16 then Inl EIO
          else
            (let vsb = le64_to_cpu (drop (off + 8) (bh (t_node vtable)))
             in case sb_bread h (s_blocksize sb) vsb of
                  None \<Rightarrow> Inl EIO
                | Some b_data \<Rightarrow>
                   count_records h sb vtable rest
                     (count + apfs_fs_alloc_count (as_superblock h b_data))))"

definition apfs_count_used_blocks :: "env \<Rightarrow> super_block \<Rightarrow> errno + u64" where
  "apfs_count_used_blocks h sb =
     (let msb_raw = s_msb_raw (s_fs_info sb);
          msb_omap = nx_omap_oid msb_raw
      in case sb_bread h (s_blocksize sb) msb_omap of
           None \<Rightarrow> Inl EIO
         | Some b_data \<Rightarrow>
            (let vb = om_tree_oid (as_omap_phys h b_data)
             in case apfs_read_table h vb of
                  Inl err \<Rightarrow> Inl err
                | Inr vtable \<Rightarrow> count_records h sb vtable [0 ..< t_records vtable] 0))"

text \<open>
  \<open>apfs_statfs\<close> returns its error, if any, and the \<open>kstatfs\<close> buffer as it leaves it.
\<close>

definition apfs_statfs :: "env \<Rightarrow> super_block \<Rightarrow> kstatfs \<Rightarrow> errno option \<times> kstatfs" where
  "apfs_statfs h sb buf =
     (let sbi = s_fs_info sb;
          msb_raw = s_msb_raw sbi;
          vol = s_vsb_raw sbi;
          buf = buf\<lparr>f_type := APFS_SUPER_MAGIC h\<rparr>;
          buf = buf\<lparr>f_bsize := s_blocksize sb\<rparr>;
          buf = buf\<lparr>f_blocks := nx_block_count msb_raw\<rparr>
      in case apfs_count_used_blocks h sb of
           Inl err \<Rightarrow> (Some err, buf)
         | Inr used_blocks \<Rightarrow>
            (let buf = buf\<lparr>f_bfree := f_blocks buf - used_blocks\<rparr>;
                 buf = buf\<lparr>f_bavail := f_bfree buf\<rparr>;
                 buf = buf\<lparr>f_files := apfs_num_files vol + apfs_num_directories vol +
                                         apfs_num_symlinks vol + apfs_num_other_fsobjects vol\<rparr>;
                 buf = buf\<lparr>f_namelen := 255\<rparr>;
                 fsid = le64_to_cpu (apfs_vol_uuid vol) XOR
                        le64_to_cpu (drop 8 (apfs_vol_uuid vol));
                 buf = buf\<lparr>f_fsid := (ucast (fsid AND 0xFFFFFFFF),
                                        ucast (drop_bit 32 fsid AND 0xFFFFFFFF))\<rparr>
             in (None, buf)))"

section \<open>The catalog query\<close>

text \<open>
  Modelled from the spec: \<open>APFS_FILE_EXTENT_LEN_MASK\<close> and the sizes of
  \<open>struct apfs_file_extent_val\<close> and \<open>struct apfs_file_extent_key\<close> of \<open>apfs.h\<close>,
  which is not among the sources.  The low 56 bits of \<open>len_and_flags\<close> are the byte
  length; the value is three 64-bit fields, the key a 64-bit header and a 64-bit logical
  address.
\<close>

definition APFS_FILE_EXTENT_LEN_MASK :: u64 where
  "APFS_FILE_EXTENT_LEN_MASK = 0x00FFFFFFFFFFFFFF"

definition sizeof_file_extent_val :: nat where
  "sizeof_file_extent_val = 24"

definition sizeof_file_extent_key :: nat where
  "sizeof_file_extent_key = 16"

text \<open>
  Modelled from the spec: \<open>apfs_init_key\<close> of \<open>key.c\<close>, which is not among the sources.
  A file-extent key is the record type, the owning object id and the logical address.
\<close>

definition apfs_init_key :: "apfs_type \<Rightarrow> u64 \<Rightarrow> u64 \<Rightarrow> apfs_key" where
  "apfs_init_key type cnid offset = \<lparr>k_id = cnid, k_type = type, k_number = offset\<rparr>"

text \<open>
  Modelled from the spec: \<open>apfs_btree_query\<close> of \<open>btree.c\<close>, which is not among the
  sources, for a catalog query that carries a file-extent key.  A failure below (a read
  error, a structural mismatch) is returned as it is.  Otherwise the query finds the
  greatest key whose record type and object id equal the target's and whose logical
  address is at most the queried one; it accepts the record when
  \<open>logical_addr \<le> query < logical_addr + value.len\<close>, and is \<open>NotFound\<close> (\<open>ENODATA\<close>)
  otherwise.  The acceptance test is the spec's, on the numbers the 64-bit fields hold:
  the sum \<open>logical_addr + value.len\<close> is not reduced modulo \<open>2 ^ 64\<close>.
\<close>

definition key_matches :: "apfs_key \<Rightarrow> apfs_query \<Rightarrow> bool" where
  "key_matches key r =
     (q_type r = k_type key \<and> q_id r = k_id key \<and> key_logical_addr r \<le> k_number key)"

fun greatest_match :: "apfs_key \<Rightarrow> apfs_query list \<Rightarrow> apfs_query option \<Rightarrow> apfs_query option" where
  "greatest_match key [] best = best"
| "greatest_match key (r # rs) best =
     greatest_match key rs
       (if key_matches key r \<and>
           (case best of None \<Rightarrow> True
            | Some b \<Rightarrow> key_logical_addr b \<le> key_logical_addr r)
        then Some r else best)"

definition apfs_btree_query :: "apfs_btree \<Rightarrow> apfs_key \<Rightarrow> errno + apfs_query" where
  "apfs_btree_query root key =
     (case bt_fault root of
        Some err \<Rightarrow> Inl err
      | None \<Rightarrow>
         (case greatest_match key (bt_records root) None of
            None \<Rightarrow> Inl ENODATA
          | Some r \<Rightarrow>
             if unat (k_number key) <
                unat (key_logical_addr r) +
                unat (len_and_flags r AND APFS_FILE_EXTENT_LEN_MASK)
             then Inr r else Inl ENODATA))"

section \<open>extents.c\<close>

text \<open>
  \<open>apfs_extent_read\<close> returns its result and the inode, whose cached extent it may have
  replaced.  \<open>Inr extent\<close> is \<open>return 0\<close> with \<open>*extent\<close> filled in.
\<close>

definition apfs_extent_read :: "env \<Rightarrow> inode \<Rightarrow> u64 \<Rightarrow> (errno + apfs_file_extent) \<times> inode" where
  "apfs_extent_read h inode iblock =
     (let sb = i_sb inode;
          sbi = s_fs_info sb;
          cache = i_cached_extent inode;
          iaddr = push_bit (i_blkbits inode) iblock
      in if iaddr \<ge> logical_addr cache \<and> iaddr < logical_addr cache + len cache
         then (Inr cache, inode)
         else if \<not> kmalloc_key h then (Inl ENOMEM, inode)
         else
           (let key = apfs_init_key APFS_TYPE_FILE_EXTENT (i_extent_id inode) iaddr
            in if \<not> apfs_alloc_query h then (Inl ENOMEM, inode)
               else
                 (case apfs_btree_query (s_cat_root sbi) key of
                    Inl ret \<Rightarrow> (Inl ret, inode)
                  | Inr query \<Rightarrow>
                     if q_len query \<noteq> sizeof_file_extent_val \<or>
                        q_key_len query \<noteq> sizeof_file_extent_key
                     then (Inl EFSCORRUPTED, inode)
                     else
                       (let ext_len = len_and_flags query AND APFS_FILE_EXTENT_LEN_MASK
                        in if ext_len AND (s_blocksize sb - 1) \<noteq> 0
                           then (Inl EFSCORRUPTED, inode)
                           else
                             (let extent = \<lparr>logical_addr = key_logical_addr query,
                                            phys_block_num = val_phys_block_num query,
                                            len = ext_len\<rparr>
                              in (Inr extent, inode\<lparr>i_cached_extent := extent\<rparr>))))))"

text \<open>
  The kernel's \<open>map_bh\<close>: it marks the buffer mapped, stores the block number and
  replaces the size with the block size.
\<close>

definition map_bh :: "buffer_head \<Rightarrow> super_block \<Rightarrow> u64 \<Rightarrow> buffer_head" where
  "map_bh b sb block = b\<lparr>b_mapped := True, b_blocknr := block, b_size := s_blocksize sb\<rparr>"

definition apfs_get_block ::
  "env \<Rightarrow> inode \<Rightarrow> u64 \<Rightarrow> buffer_head \<Rightarrow> bool \<Rightarrow> (errno + buffer_head) \<times> inode" where
  "apfs_get_block h inode iblock bh_result create =
     (let sb = i_sb inode
      in case apfs_extent_read h inode iblock of
           (Inl ret, inode) \<Rightarrow> (Inl ret, inode)
         | (Inr ext, inode) \<Rightarrow>
            (let blk_off = iblock - drop_bit (i_blkbits inode) (logical_addr ext);
                 map_len = len ext - push_bit (i_blkbits inode) blk_off;
                 bh_result = (if b_size bh_result > map_len
                              then bh_result\<lparr>b_size := map_len\<rparr> else bh_result);
                 map_len = b_size bh_result;
                 bh_result = (if phys_block_num ext \<noteq> 0
                              then (let bno = phys_block_num ext + blk_off
                                    in map_bh bh_result sb bno)
                              else bh_result);
                 bh_result = bh_result\<lparr>b_size := map_len\<rparr>
             in (Inr bh_result, inode)))"

text \<open>\<open>init_once\<close> of \<open>super.c\<close>: a fresh inode has an empty cached extent.\<close>

definition init_once :: "inode \<Rightarrow> inode" where
  "init_once ai = ai\<lparr>i_cached_extent := (i_cached_extent ai)\<lparr>len := 0\<rparr>\<rparr>"

section \<open>The container superblock of a device\<close>

text \<open>
  For the statement about the mount: the container superblock is block 0 read with the
  block size that block 0, read with the default block size, declares.  The result is
  that block size and the bytes of the block, or nothing when a read fails.
\<close>

definition container_superblock :: "env \<Rightarrow> (u64 \<times> byte list) option" where
  "container_superblock h =
     (case sb_bread h (of_int APFS_NX_DEFAULT_BLOCK_SIZE) APFS_NX_BLOCK_NUM of
        None \<Rightarrow> None
      | Some b0 \<Rightarrow>
         (let bs = of_int (sint (nx_block_size (as_nx_superblock h b0)))
          in if bs = of_int APFS_NX_DEFAULT_BLOCK_SIZE then Some (bs, b0)
             else (case sb_bread h bs APFS_NX_BLOCK_NUM of
                     None \<Rightarrow> None
                   | Some b1 \<Rightarrow> Some (bs, b1))))"

section \<open>The volume superblocks of a container\<close>

text \<open>
  For the statement about \<open>apfs_statfs\<close>: the block that record \<open>i\<close> of the container's
  object-map node refers to, and the \<open>fs_alloc_count\<close> of the volume superblock read there.
\<close>

definition vsb_block :: "env \<Rightarrow> apfs_table \<Rightarrow> nat \<Rightarrow> u64" where
  "vsb_block h vtable i =
     le64_to_cpu (drop (snd (apfs_table_locate_data h vtable i) + 8) (bh (t_node vtable)))"

definition vsb_alloc_count :: "env \<Rightarrow> super_block \<Rightarrow> apfs_table \<Rightarrow> nat \<Rightarrow> u64" where
  "vsb_alloc_count h sb vtable i =
     (case sb_bread h (s_blocksize sb) (vsb_block h vtable i) of
        None \<Rightarrow> 0
      | Some b_data \<Rightarrow> apfs_fs_alloc_count (as_superblock h b_data))"

section \<open>Example data\<close>

text \<open>
  A small mounted volume for the concrete instances below: block size 4096, a container of
  10000 blocks, and a catalog with one extent record of three blocks at physical block 500
  for the file with extent id 7.
\<close>

definition example_msb :: apfs_nx_superblock where
  "example_msb = \<lparr>nx_magic = 0x4253584E, nx_block_size = 4096, nx_block_count = 10000,
     nx_omap_oid = 50, nx_fs_oid = [0x402]\<rparr>"

definition example_vol :: apfs_superblock where
  "example_vol = \<lparr>apfs_magic = 0x42535041, apfs_fs_alloc_count = 1000, apfs_num_files = 30,
     apfs_num_directories = 4, apfs_num_symlinks = 2, apfs_num_other_fsobjects = 1,
     apfs_vol_uuid = [1, 2, 3, 4, 5, 6, 7, 8, 16, 32, 48, 64, 80, 96, 112, 128]\<rparr>"

definition example_record :: apfs_query where
  "example_record = \<lparr>q_type = APFS_TYPE_FILE_EXTENT, q_id = 7, q_key_len = 16, q_len = 24,
     key_logical_addr = 0, len_and_flags = 12288, val_phys_block_num = 500, crypto_id = 0\<rparr>"

definition example_sbi :: apfs_sb_info where
  "example_sbi = \<lparr>s_msb_raw = example_msb, s_vsb_raw = example_vol,
     s_mnode = \<lparr>block_nr = 0, node_id = 1, bh = []\<rparr>,
     s_cat_root = \<lparr>bt_fault = None, bt_records = [example_record]\<rparr>,
     s_nodesize = 4096, s_nodesize_bits = 12, s_vol_nr = 0, s_flags = {},
     s_uid = 0, s_gid = 0\<rparr>"

definition example_sb :: super_block where
  "example_sb = \<lparr>s_blocksize = 4096, s_blocksize_bits = 12, s_magic = 0x4253584E,
     s_rdonly = True, s_fs_info = example_sbi\<rparr>"

definition example_inode :: inode where
  "example_inode = \<lparr>i_ino = 7, i_blkbits = 12, i_sb = example_sb, i_extent_id = 7,
     i_cached_extent = \<lparr>logical_addr = 0, phys_block_num = 0, len = 0\<rparr>\<rparr>"

definition example_extent :: apfs_file_extent where
  "example_extent = \<lparr>logical_addr = 0, phys_block_num = 500, len = 12288\<rparr>"

text \<open>An environment in which every allocation succeeds and nothing else is available.\<close>

definition example_env :: env where
  "example_env = \<lparr>kzalloc_sbi = Some example_sbi, kmalloc_key = True,
     apfs_alloc_query = True,
     sb_set_blocksize = (\<lambda>_. None), sb_bread = (\<lambda>_ _. None),
     as_nx_superblock = (\<lambda>_. example_msb), as_omap_phys = (\<lambda>_. \<lparr>om_tree_oid = 0\<rparr>),
     as_superblock = (\<lambda>_. example_vol), apfs_read_table = (\<lambda>_. Inl EIO),
     apfs_table_locate_data = (\<lambda>_ _. (0, 0)), match_token = (\<lambda>_ _. (Opt_err, [])),
     match_int = (\<lambda>_. Inl EINVAL), make_kuid = (\<lambda>_. None), make_kgid = (\<lambda>_. None),
     APFS_SUPER_MAGIC = 0, mount_volume = Inr\<rparr>"

text \<open>The same inode over a catalog whose extent record has a length of 5000 bytes.\<close>

definition example_bad_record_inode :: inode where
  "example_bad_record_inode = example_inode\<lparr>i_sb := example_sb\<lparr>s_fs_info :=
      example_sbi\<lparr>s_cat_root :=
        \<lparr>bt_fault = None, bt_records = [example_record\<lparr>len_and_flags := 5000\<rparr>]\<rparr>\<rparr>\<rparr>\<rparr>"

text \<open>
  A container object map at block 50 whose node, block 60, has two records that refer to
  the volume superblocks at blocks 100 and 101, with 1000 and 2500 blocks in use.
\<close>

definition example_vtable :: apfs_table where
  "example_vtable = \<lparr>t_node = \<lparr>block_nr = 60, node_id = 60,
       bh = [0, 0, 0, 0, 0, 0, 0, 0, 100, 0, 0, 0, 0, 0, 0, 0,
             0, 0, 0, 0, 0, 0, 0, 0, 101, 0, 0, 0, 0, 0, 0, 0]\<rparr>,
     t_records = 2\<rparr>"

definition example_statfs_env :: env where
  "example_statfs_env = example_env\<lparr>
     sb_bread := (\<lambda>bs bno. if bno = 50 then Some [50] else if bno = 100 then Some [100]
                   else if bno = 101 then Some [101] else None),
     as_omap_phys := (\<lambda>_. \<lparr>om_tree_oid = 60\<rparr>),
     apfs_read_table := (\<lambda>b. if b = 60 then Inr example_vtable else Inl EIO),
     apfs_table_locate_data := (\<lambda>t i. (16, 16 * i)),
     as_superblock := (\<lambda>d. if d = [100] then example_vol
                         else example_vol\<lparr>apfs_fs_alloc_count := 2500\<rparr>)\<rparr>"

definition example_kstatfs :: kstatfs where
  "example_kstatfs = \<lparr>f_type = 0, f_bsize = 0, f_blocks = 0, f_bfree = 0, f_bavail = 0,
     f_files = 0, f_ffree = 0, f_fsid = (0, 0), f_namelen = 0\<rparr>"

text \<open>The same container, where the value of the second record is 8 bytes long.\<close>

definition example_short_entry_env :: env where
  "example_short_entry_env = example_statfs_env\<lparr>
     apfs_table_locate_data := (\<lambda>t i. if i = 1 then (8, 16) else (16, 0))\<rparr>"

text \<open>
  A device whose block 0, read with the default block size, begins with a stored checksum
  of zero, and whose superblock overlay is the example container superblock.
\<close>

definition example_block0 :: "byte list" where
  "example_block0 = [0, 0, 0, 0, 0, 0, 0, 0, 1, 0, 0, 0, 0, 0, 0, 0]"

definition example_mount_env :: env where
  "example_mount_env = example_env\<lparr>
     sb_set_blocksize := (\<lambda>sz. if sz = 4096 then Some 12 else None),
     sb_bread := (\<lambda>bs bno. if bs = 4096 \<and> bno = 0 then Some example_block0 else None)\<rparr>"



text \<open>
  The example inode over a catalog whose extent record has a length of zero, and over one
  whose extent record of two blocks begins one block below \<open>2 ^ 64\<close>, so that its end
  passes \<open>2 ^ 64\<close>.
\<close>

definition example_zero_len_inode :: inode where
  "example_zero_len_inode = example_inode\<lparr>i_sb := example_sb\<lparr>s_fs_info :=
      example_sbi\<lparr>s_cat_root :=
        \<lparr>bt_fault = None, bt_records = [example_record\<lparr>len_and_flags := 0\<rparr>]\<rparr>\<rparr>\<rparr>\<rparr>"




section \<open>Properties of the extent resolver\<close>

lemmas example_defs = example_msb_def example_vol_def example_record_def example_sbi_def
  example_sb_def example_inode_def example_extent_def example_env_def

lemmas extent_consts = APFS_FILE_EXTENT_LEN_MASK_def sizeof_file_extent_val_def
  sizeof_file_extent_key_def apfs_init_key_def key_matches_def apfs_btree_query_def

lemma greatest_match_matches:
  "greatest_match key rs best = Some r \<Longrightarrow> (\<And>b. best = Some b \<Longrightarrow> key_matches key b)
     \<Longrightarrow> key_matches key r"
proof (induction rs arbitrary: best)
  case Nil
  then show ?case by simp
next
  case (Cons a rs)
  show ?case
  proof (rule Cons.IH)
    show "greatest_match key rs
       (if key_matches key a \<and>
           (case best of None \<Rightarrow> True
            | Some b \<Rightarrow> key_logical_addr b \<le> key_logical_addr a)
        then Some a else best) = Some r"
      using Cons.prems(1) by simp
  next
    fix b
    assume "(if key_matches key a \<and>
                (case best of None \<Rightarrow> True
                 | Some b \<Rightarrow> key_logical_addr b \<le> key_logical_addr a)
             then Some a else best) = Some b"
    then show "key_matches key b"
      using Cons.prems(2) by (auto split: if_splits)
  qed
qed

text \<open>What a successful catalog query guarantees about the record it returns.\<close>

lemma apfs_btree_query_accepts:
  assumes "apfs_btree_query root key = Inr r"
  shows "key_matches key r"
    and "unat (k_number key) <
           unat (key_logical_addr r) + unat (len_and_flags r AND APFS_FILE_EXTENT_LEN_MASK)"
proof -
  from assms have g: "greatest_match key (bt_records root) None = Some r"
    and a: "unat (k_number key) <
           unat (key_logical_addr r) + unat (len_and_flags r AND APFS_FILE_EXTENT_LEN_MASK)"
    by (auto simp: apfs_btree_query_def split: option.splits if_splits)
  show "key_matches key r"
    using greatest_match_matches [OF g] by simp
  show "unat (k_number key) <
           unat (key_logical_addr r) + unat (len_and_flags r AND APFS_FILE_EXTENT_LEN_MASK)"
    by (rule a)
qed

text \<open>
  The 64-bit test \<open>la \<le> a \<and> a < la + l\<close> holds only when the sum does not wrap, so it
  is the test on the numbers themselves.
\<close>

lemma covered_unat:
  fixes a la l :: u64
  assumes "la \<le> a" and "a < la + l"
  shows "unat la \<le> unat a" and "unat a < unat la + unat l" and "l \<noteq> 0"
proof -
  show "unat la \<le> unat a" using assms(1) by (simp add: word_le_nat_alt)
  have "unat a < unat (la + l)" using assms(2) by (simp add: word_less_nat_alt)
  also have "unat (la + l) \<le> unat la + unat l"
    by (simp add: unat_word_ariths)
  finally show "unat a < unat la + unat l" .
  show "l \<noteq> 0" using assms by auto
qed

text \<open>
  The three ways \<open>apfs_extent_read\<close> ends: a cache hit, an error, or a record that passed
  both checks and was installed in the cache.
\<close>

lemma extent_read_cases:
  assumes "apfs_extent_read h inode iblock = (r, inode')"
  defines "iaddr \<equiv> push_bit (i_blkbits inode) iblock"
  defines "cache \<equiv> i_cached_extent inode"
  shows "(logical_addr cache \<le> iaddr \<and> iaddr < logical_addr cache + len cache \<and>
            r = Inr cache \<and> inode' = inode)
       \<or> (\<not> (logical_addr cache \<le> iaddr \<and> iaddr < logical_addr cache + len cache) \<and>
            (\<exists>err. r = Inl err) \<and> inode' = inode)
       \<or> (\<not> (logical_addr cache \<le> iaddr \<and> iaddr < logical_addr cache + len cache) \<and>
            (\<exists>query. apfs_btree_query (s_cat_root (s_fs_info (i_sb inode)))
                 (apfs_init_key APFS_TYPE_FILE_EXTENT (i_extent_id inode) iaddr) = Inr query \<and>
               q_len query = sizeof_file_extent_val \<and>
               q_key_len query = sizeof_file_extent_key \<and>
               (len_and_flags query AND APFS_FILE_EXTENT_LEN_MASK) AND
                  (s_blocksize (i_sb inode) - 1) = 0 \<and>
               r = Inr \<lparr>logical_addr = key_logical_addr query,
                        phys_block_num = val_phys_block_num query,
                        len = len_and_flags query AND APFS_FILE_EXTENT_LEN_MASK\<rparr> \<and>
               inode' = inode\<lparr>i_cached_extent :=
                      \<lparr>logical_addr = key_logical_addr query,
                        phys_block_num = val_phys_block_num query,
                        len = len_and_flags query AND APFS_FILE_EXTENT_LEN_MASK\<rparr>\<rparr>))"
  using assms(1) unfolding iaddr_def cache_def apfs_extent_read_def Let_def
  by (auto split: if_splits sum.splits)

text \<open>
  C10: whenever \<open>apfs_extent_read\<close> returns an error, the inode and with it the cached
  extent are as they were; the cache changes only when the catalog query returned a record
  that passed the record-size check and the length-alignment check, and then the call
  succeeds and the cache holds the extent it returned.
\<close>

theorem extent_read_error_keeps_cache:
  assumes "apfs_extent_read h inode iblock = (r, inode')"
  shows "(\<forall>err. r = Inl err \<longrightarrow> inode' = inode) \<and>
         (inode' \<noteq> inode \<longrightarrow>
           (\<exists>query.
              apfs_btree_query (s_cat_root (s_fs_info (i_sb inode)))
                (apfs_init_key APFS_TYPE_FILE_EXTENT (i_extent_id inode)
                   (push_bit (i_blkbits inode) iblock)) = Inr query \<and>
              q_len query = sizeof_file_extent_val \<and>
              q_key_len query = sizeof_file_extent_key \<and>
              (len_and_flags query AND APFS_FILE_EXTENT_LEN_MASK) AND
                 (s_blocksize (i_sb inode) - 1) = 0 \<and>
              r = Inr (i_cached_extent inode') \<and>
              inode' = inode\<lparr>i_cached_extent :=
                 \<lparr>logical_addr = key_logical_addr query,
                  phys_block_num = val_phys_block_num query,
                  len = len_and_flags query AND APFS_FILE_EXTENT_LEN_MASK\<rparr>\<rparr>))"
  using extent_read_cases [OF assms] by auto

theorem extent_read_error_keeps_cache_witness:
  "apfs_extent_read (example_env\<lparr>apfs_alloc_query := False\<rparr>) example_inode 1
     = (Inl ENOMEM, example_inode)"
  using extent_read_error_keeps_cache
    [of "example_env\<lparr>apfs_alloc_query := False\<rparr>" example_inode 1 "Inl ENOMEM" example_inode]
  by (simp add: apfs_extent_read_def example_defs extent_consts Let_def)

lemma unat_push_bit_no_overflow:
  fixes w :: u64
  assumes "unat w * 2 ^ n < 2 ^ 64"
  shows "unat (push_bit n w) = unat w * 2 ^ n"
proof -
  have "unat (push_bit n w) = take_bit LENGTH(64) (push_bit n (unat w))"
    by (fact unsigned_push_bit_eq)
  also have "\<dots> = push_bit n (unat w)"
    using assms by (simp add: take_bit_nat_eq_self push_bit_eq_mult)
  finally show ?thesis by (simp add: push_bit_eq_mult)
qed

lemma unat_2p64:
  assumes "n < 64"
  shows "unat (2 ^ n :: u64) = 2 ^ n"
proof -
  have "(2::nat) ^ n < 2 ^ 64"
    using assms by (rule power_strict_increasing) simp
  then have "unat (push_bit n (1 :: u64)) = unat (1 :: u64) * 2 ^ n"
    by (intro unat_push_bit_no_overflow) simp
  then show ?thesis by (simp add: push_bit_eq_mult)
qed

lemma aligned_iff:
  fixes x :: u64
  shows "(x AND (2 ^ n - 1) = 0) = (unat x mod 2 ^ n = 0)"
proof -
  have "(x AND (2 ^ n - 1) = 0) = (x AND mask n = 0)"
    by (simp add: mask_eq_exp_minus_1)
  also have "\<dots> = (2 ^ n dvd unat x)"
    by (simp add: and_mask_dvd_nat)
  finally show ?thesis by (simp add: dvd_eq_mod_eq_0)
qed

text \<open>
  An extent that \<open>apfs_extent_read\<close> returns covers the address it was asked for, on
  either path: the cache test says so for a cache hit, the catalog query for a record.
\<close>

lemma extent_read_covered:
  assumes "apfs_extent_read h inode iblock = (Inr E, inode')"
  shows "logical_addr E \<le> push_bit (i_blkbits inode) iblock"
    and "unat (push_bit (i_blkbits inode) iblock) < unat (logical_addr E) + unat (len E)"
proof -
  define iaddr where "iaddr = push_bit (i_blkbits inode) iblock"
  define cache where "cache = i_cached_extent inode"
  note cases = extent_read_cases [OF assms, folded iaddr_def cache_def]
  have "logical_addr E \<le> iaddr \<and> unat iaddr < unat (logical_addr E) + unat (len E)"
  proof (cases "logical_addr cache \<le> iaddr \<and> iaddr < logical_addr cache + len cache")
    case True
    with cases have "E = cache" by auto
    with True covered_unat(2) show ?thesis by blast
  next
    case False
    with cases obtain query where
      q: "apfs_btree_query (s_cat_root (s_fs_info (i_sb inode)))
            (apfs_init_key APFS_TYPE_FILE_EXTENT (i_extent_id inode) iaddr) = Inr query"
      and E: "E = \<lparr>logical_addr = key_logical_addr query,
                    phys_block_num = val_phys_block_num query,
                    len = len_and_flags query AND APFS_FILE_EXTENT_LEN_MASK\<rparr>"
      by auto
    from apfs_btree_query_accepts [OF q] E show ?thesis
      by (simp add: key_matches_def apfs_init_key_def)
  qed
  then show "logical_addr E \<le> push_bit (i_blkbits inode) iblock"
    and "unat (push_bit (i_blkbits inode) iblock) < unat (logical_addr E) + unat (len E)"
    by (simp_all add: iaddr_def)
qed







text \<open>The cache of a fresh inode is empty, so its length is a multiple of any block size.\<close>

lemma init_once_cache_aligned:
  "unat (len (i_cached_extent (init_once ai))) mod unat (s_blocksize (i_sb (init_once ai))) = 0"
  by (simp add: init_once_def)

text \<open>
  C2, as stated: a file-extent record whose length is not a positive multiple of the block
  size makes the resolution fail with \<open>EFSCORRUPTED\<close>.  It does not hold for a length of
  zero: \<open>apfs_extent_read\<close> tests only \<open>ext_len & (s_blocksize - 1)\<close>, which zero passes.
  The record of the example is the one the lookup for block 0 lands on and its length is
  zero; the catalog query does not accept it, and the resolution fails with the query's
  \<open>ENODATA\<close>.
\<close>

theorem extent_read_zero_len_counterexample:
  "greatest_match (apfs_init_key APFS_TYPE_FILE_EXTENT 7 0)
      (bt_records (s_cat_root (s_fs_info (i_sb example_zero_len_inode)))) None
     = Some (example_record\<lparr>len_and_flags := 0\<rparr>) \<and>
   unat (len_and_flags (example_record\<lparr>len_and_flags := 0\<rparr>) AND APFS_FILE_EXTENT_LEN_MASK)
     = 0 \<and>
   apfs_extent_read example_env example_zero_len_inode 0
     = (Inl ENODATA, example_zero_len_inode) \<and>
   fst (apfs_extent_read example_env example_zero_len_inode 0) \<noteq> Inl EFSCORRUPTED"
  by (simp add: apfs_extent_read_def example_defs extent_consts Let_def
      example_zero_len_inode_def)

text \<open>
  C2, amended: with a block size that is a power of two and a cached extent whose length is
  a multiple of it (as the empty cache of a fresh inode is), every extent that
  \<open>apfs_extent_read\<close> returns has a length that is positive and a multiple of the block
  size, and the cache keeps such a length.  A record returned by the catalog query whose
  length is not a multiple of the block size makes the call fail with \<open>EFSCORRUPTED\<close> and
  leaves the inode as it was.  There is no test for a length of zero in
  \<open>apfs_extent_read\<close>: the length of a returned extent is positive because the catalog
  query accepts only a record that covers the address, and when the lookup lands on a
  record of length zero the call fails with \<open>ENODATA\<close> and leaves the inode as it was.
\<close>

theorem extent_read_len_aligned:
  assumes bs: "s_blocksize (i_sb inode) = 2 ^ n" "n < 64"
    and inv: "unat (len (i_cached_extent inode)) mod unat (s_blocksize (i_sb inode)) = 0"
    and run: "apfs_extent_read h inode iblock = (r, inode')"
  shows "unat (len (i_cached_extent inode')) mod unat (s_blocksize (i_sb inode')) = 0 \<and>
         (\<forall>E. r = Inr E \<longrightarrow>
            0 < unat (len E) \<and> unat (len E) mod unat (s_blocksize (i_sb inode)) = 0) \<and>
         (\<forall>query.
            \<not> (logical_addr (i_cached_extent inode) \<le> push_bit (i_blkbits inode) iblock \<and>
               push_bit (i_blkbits inode) iblock
                 < logical_addr (i_cached_extent inode) + len (i_cached_extent inode)) \<and>
            kmalloc_key h \<and> apfs_alloc_query h \<and>
            apfs_btree_query (s_cat_root (s_fs_info (i_sb inode)))
              (apfs_init_key APFS_TYPE_FILE_EXTENT (i_extent_id inode)
                 (push_bit (i_blkbits inode) iblock)) = Inr query \<and>
            unat (len_and_flags query AND APFS_FILE_EXTENT_LEN_MASK)
                 mod unat (s_blocksize (i_sb inode)) \<noteq> 0
            \<longrightarrow> r = Inl EFSCORRUPTED \<and> inode' = inode) \<and>
         (\<forall>rec.
            \<not> (logical_addr (i_cached_extent inode) \<le> push_bit (i_blkbits inode) iblock \<and>
               push_bit (i_blkbits inode) iblock
                 < logical_addr (i_cached_extent inode) + len (i_cached_extent inode)) \<and>
            kmalloc_key h \<and> apfs_alloc_query h \<and>
            bt_fault (s_cat_root (s_fs_info (i_sb inode))) = None \<and>
            greatest_match
              (apfs_init_key APFS_TYPE_FILE_EXTENT (i_extent_id inode)
                 (push_bit (i_blkbits inode) iblock))
              (bt_records (s_cat_root (s_fs_info (i_sb inode)))) None = Some rec \<and>
            len_and_flags rec AND APFS_FILE_EXTENT_LEN_MASK = 0
            \<longrightarrow> r = Inl ENODATA \<and> inode' = inode)"
proof -
  have ubs: "unat (s_blocksize (i_sb inode)) = 2 ^ n"
    using bs by (simp add: unat_2p64)
  have al: "(x AND (s_blocksize (i_sb inode) - 1) = 0) = (unat x mod 2 ^ n = 0)" for x
    using aligned_iff [of x n] bs by simp
  note cases = extent_read_cases [OF run]
  have 1: "unat (len (i_cached_extent inode')) mod unat (s_blocksize (i_sb inode')) = 0"
    using cases inv by (auto simp: al ubs)
  have 2: "0 < unat (len E) \<and> unat (len E) mod unat (s_blocksize (i_sb inode)) = 0"
    if "r = Inr E" for E
  proof -
    have "unat (logical_addr E) \<le> unat (push_bit (i_blkbits inode) iblock)"
      and "unat (push_bit (i_blkbits inode) iblock) < unat (logical_addr E) + unat (len E)"
      using extent_read_covered [of h inode iblock E inode'] run that
      by (simp_all add: word_le_nat_alt)
    then have "0 < unat (len E)" by simp
    moreover have "unat (len E) mod unat (s_blocksize (i_sb inode)) = 0"
      using cases that inv by (auto simp: al ubs)
    ultimately show ?thesis by simp
  qed
  have 3: "r = Inl EFSCORRUPTED \<and> inode' = inode"
    if miss: "\<not> (logical_addr (i_cached_extent inode) \<le> push_bit (i_blkbits inode) iblock \<and>
               push_bit (i_blkbits inode) iblock
                 < logical_addr (i_cached_extent inode) + len (i_cached_extent inode))"
      and ok: "kmalloc_key h" "apfs_alloc_query h"
      and q: "apfs_btree_query (s_cat_root (s_fs_info (i_sb inode)))
              (apfs_init_key APFS_TYPE_FILE_EXTENT (i_extent_id inode)
                 (push_bit (i_blkbits inode) iblock)) = Inr query"
      and bad: "unat (len_and_flags query AND APFS_FILE_EXTENT_LEN_MASK)
                 mod unat (s_blocksize (i_sb inode)) \<noteq> 0"
    for query
  proof -
    from bad have "(len_and_flags query AND APFS_FILE_EXTENT_LEN_MASK)
        AND (s_blocksize (i_sb inode) - 1) \<noteq> 0"
      by (simp add: al ubs)
    then show ?thesis
      using run miss ok q by (auto simp: apfs_extent_read_def Let_def split: if_splits)
  qed
  have 4: "r = Inl ENODATA \<and> inode' = inode"
    if miss: "\<not> (logical_addr (i_cached_extent inode) \<le> push_bit (i_blkbits inode) iblock \<and>
               push_bit (i_blkbits inode) iblock
                 < logical_addr (i_cached_extent inode) + len (i_cached_extent inode))"
      and ok: "kmalloc_key h" "apfs_alloc_query h"
      and nofault: "bt_fault (s_cat_root (s_fs_info (i_sb inode))) = None"
      and g: "greatest_match
              (apfs_init_key APFS_TYPE_FILE_EXTENT (i_extent_id inode)
                 (push_bit (i_blkbits inode) iblock))
              (bt_records (s_cat_root (s_fs_info (i_sb inode)))) None = Some rec"
      and zero: "len_and_flags rec AND APFS_FILE_EXTENT_LEN_MASK = 0"
    for rec
  proof -
    have "key_matches (apfs_init_key APFS_TYPE_FILE_EXTENT (i_extent_id inode)
                 (push_bit (i_blkbits inode) iblock)) rec"
      using greatest_match_matches [OF g] by simp
    then have "unat (key_logical_addr rec) \<le> unat (push_bit (i_blkbits inode) iblock)"
      by (simp add: key_matches_def apfs_init_key_def word_le_nat_alt)
    then have "apfs_btree_query (s_cat_root (s_fs_info (i_sb inode)))
              (apfs_init_key APFS_TYPE_FILE_EXTENT (i_extent_id inode)
                 (push_bit (i_blkbits inode) iblock)) = Inl ENODATA"
      using nofault g zero by (simp add: apfs_btree_query_def apfs_init_key_def)
    then show ?thesis
      using run miss ok by (auto simp: apfs_extent_read_def Let_def split: if_splits)
  qed
  from 1 2 3 4 show ?thesis by blast
qed

theorem extent_read_len_aligned_witness:
  "s_blocksize (i_sb example_inode) = 2 ^ 12 \<and> (12::nat) < 64 \<and>
   unat (len (i_cached_extent example_inode)) mod unat (s_blocksize (i_sb example_inode)) = 0 \<and>
   apfs_extent_read example_env example_inode 2
     = (Inr example_extent, example_inode\<lparr>i_cached_extent := example_extent\<rparr>) \<and>
   0 < unat (len example_extent) \<and>
   unat (len example_extent) mod unat (s_blocksize (i_sb example_inode)) = 0 \<and>
   apfs_extent_read example_env example_bad_record_inode 1
     = (Inl EFSCORRUPTED, example_bad_record_inode)"
  using extent_read_len_aligned [of example_inode 12 example_env 2 "Inr example_extent"
      "example_inode\<lparr>i_cached_extent := example_extent\<rparr>"]
  by (simp add: apfs_extent_read_def example_defs extent_consts Let_def example_bad_record_inode_def)

section \<open>Properties of the block mapping\<close>

text \<open>
  C1, as stated: every call of \<open>apfs_get_block\<close> with \<open>create\<close> set fails with
  \<open>EROFS\<close> and changes nothing.  It does not hold: the call below maps block 2 of the
  example file to disk block 502.
\<close>

theorem get_block_write_counterexample:
  "\<not> (\<forall>h inode iblock bh_result.
        apfs_get_block h inode iblock bh_result True = (Inl EROFS, inode))"
proof
  assume "\<forall>h inode iblock bh_result.
        apfs_get_block h inode iblock bh_result True = (Inl EROFS, inode)"
  then have "apfs_get_block example_env example_inode 2
      \<lparr>b_size = 65536, b_blocknr = 0, b_mapped = False\<rparr> True = (Inl EROFS, example_inode)"
    by blast
  then show False
    by (simp add: apfs_get_block_def apfs_extent_read_def example_defs extent_consts
        map_bh_def Let_def)
qed

text \<open>
  C1, amended: \<open>apfs_get_block\<close> does not look at \<open>create\<close>.  A call with \<open>create\<close>
  set returns what the same call without it returns: the error of the extent resolver if
  that fails, and otherwise success with the block mapped at
  \<open>phys_block_num + blk_off\<close>, or left unmapped for a hole.
\<close>

theorem get_block_ignores_create:
  "apfs_get_block h inode iblock bh_result True
     = apfs_get_block h inode iblock bh_result False \<and>
   (\<forall>err inode'. apfs_extent_read h inode iblock = (Inl err, inode') \<longrightarrow>
      apfs_get_block h inode iblock bh_result True = (Inl err, inode')) \<and>
   (\<forall>ext inode'. apfs_extent_read h inode iblock = (Inr ext, inode') \<longrightarrow>
      (\<exists>b. apfs_get_block h inode iblock bh_result True = (Inr b, inode') \<and>
           (phys_block_num ext \<noteq> 0 \<longrightarrow> b_mapped b \<and>
              b_blocknr b = phys_block_num ext +
                (iblock - drop_bit (i_blkbits inode) (logical_addr ext))) \<and>
           (phys_block_num ext = 0 \<longrightarrow>
              b_mapped b = b_mapped bh_result \<and> b_blocknr b = b_blocknr bh_result)))"
proof -
  have bits: "i_blkbits inode' = i_blkbits inode"
    if "apfs_extent_read h inode iblock = (r, inode')" for r inode'
    using extent_read_cases [OF that] by auto
  show ?thesis
    by (auto simp: apfs_get_block_def Let_def map_bh_def bits)
qed

theorem get_block_ignores_create_witness:
  "apfs_extent_read example_env example_inode 2
     = (Inr example_extent, example_inode\<lparr>i_cached_extent := example_extent\<rparr>) \<and>
   apfs_get_block example_env example_inode 2
      \<lparr>b_size = 65536, b_blocknr = 0, b_mapped = False\<rparr> True
     = (Inr \<lparr>b_size = 4096, b_blocknr = 502, b_mapped = True\<rparr>,
        example_inode\<lparr>i_cached_extent := example_extent\<rparr>)"
  using get_block_ignores_create [of example_env example_inode 2
      "\<lparr>b_size = 65536, b_blocknr = 0, b_mapped = False\<rparr>"]
  by (simp add: apfs_get_block_def apfs_extent_read_def example_defs extent_consts
        map_bh_def Let_def)

section \<open>Properties of statfs\<close>

lemmas statfs_example_defs = example_vtable_def example_statfs_env_def example_kstatfs_def
  vsb_block_def vsb_alloc_count_def

lemma count_records_total:
  "count_records h sb vtable is c = Inr cnt \<Longrightarrow>
     cnt = c + sum_list (map (vsb_alloc_count h sb vtable) is) \<and>
     (\<forall>i \<in> set is. fst (apfs_table_locate_data h vtable i) = 16 \<and>
        sb_bread h (s_blocksize sb) (vsb_block h vtable i) \<noteq> None)"
proof (induction "is" arbitrary: c)
  case Nil
  then show ?case by simp
next
  case (Cons i rest)
  obtain ln off where loc: "apfs_table_locate_data h vtable i = (ln, off)"
    by (cases "apfs_table_locate_data h vtable i")
  from Cons.prems loc have ln: "ln = 16"
    by (auto split: if_splits)
  from Cons.prems loc ln obtain b_data where
    rd: "sb_bread h (s_blocksize sb) (le64_to_cpu (drop (off + 8) (bh (t_node vtable)))) = Some b_data"
    and rest: "count_records h sb vtable rest
         (c + apfs_fs_alloc_count (as_superblock h b_data)) = Inr cnt"
    by (auto simp: Let_def split: option.splits)
  have here: "vsb_alloc_count h sb vtable i = apfs_fs_alloc_count (as_superblock h b_data)"
    using loc rd by (simp add: vsb_alloc_count_def vsb_block_def)
  from Cons.IH [OF rest] here loc ln rd show ?case
    by (simp add: vsb_block_def add.assoc)
qed

lemma count_records_error:
  "count_records h sb vtable is c = Inl err \<Longrightarrow> err = EIO"
proof (induction "is" arbitrary: c)
  case Nil
  then show ?case by simp
next
  case (Cons i rest)
  then show ?case
    by (auto simp: Let_def split: prod.splits if_splits option.splits)
qed

lemma count_records_bad_length:
  assumes "i \<in> set is" and "fst (apfs_table_locate_data h vtable i) \<noteq> 16"
  shows "count_records h sb vtable is c = Inl EIO"
proof (cases "count_records h sb vtable is c")
  case (Inl err)
  then show ?thesis using count_records_error by blast
next
  case (Inr cnt)
  from count_records_total [OF Inr] assms show ?thesis by auto
qed

lemma ucast_low32:
  fixes x :: u64
  shows "(ucast (x AND 0xFFFFFFFF) :: u32) = ucast x"
proof -
  have m: "(0xFFFFFFFF :: u64) = mask 32"
    by (simp add: mask_eq_exp_minus_1)
  show ?thesis
    unfolding m by (rule bit_word_eqI) (auto simp: bit_simps)
qed

lemma ucast_high32:
  fixes x :: u64
  shows "(ucast (drop_bit 32 x AND 0xFFFFFFFF) :: u32) = ucast (drop_bit 32 x)"
  by (rule ucast_low32)

text \<open>
  C6: a successful \<open>apfs_statfs\<close> has read the container's object map and its node,
  found every record of the node 16 bytes long and read every volume superblock they refer
  to; it reports \<open>f_blocks = nx_block_count\<close>, \<open>f_bfree = f_blocks - used\<close> where
  \<open>used\<close> is the sum of \<open>fs_alloc_count\<close> over those volume superblocks,
  \<open>f_bavail = f_bfree\<close>, \<open>f_files\<close> the sum of the four object counters of the mounted
  volume, \<open>f_namelen = 255\<close>, and as \<open>f_fsid\<close> the low and high 32-bit halves of the
  XOR of the two 8-byte halves of the volume UUID.  The sums and the difference are those
  of 64-bit unsigned arithmetic.
\<close>

theorem statfs_reports:
  assumes "apfs_statfs h sb buf = (None, buf')"
  shows "\<exists>b_data vtable.
     sb_bread h (s_blocksize sb) (nx_omap_oid (s_msb_raw (s_fs_info sb))) = Some b_data \<and>
     apfs_read_table h (om_tree_oid (as_omap_phys h b_data)) = Inr vtable \<and>
     (\<forall>i < t_records vtable.
        fst (apfs_table_locate_data h vtable i) = 16 \<and>
        sb_bread h (s_blocksize sb) (vsb_block h vtable i) \<noteq> None) \<and>
     f_blocks buf' = nx_block_count (s_msb_raw (s_fs_info sb)) \<and>
     f_bfree buf' = f_blocks buf' -
        sum_list (map (vsb_alloc_count h sb vtable) [0 ..< t_records vtable]) \<and>
     f_bavail buf' = f_bfree buf' \<and>
     f_files buf' =
        apfs_num_files (s_vsb_raw (s_fs_info sb)) +
        apfs_num_directories (s_vsb_raw (s_fs_info sb)) +
        apfs_num_symlinks (s_vsb_raw (s_fs_info sb)) +
        apfs_num_other_fsobjects (s_vsb_raw (s_fs_info sb)) \<and>
     f_namelen buf' = 255 \<and>
     f_fsid buf' =
       (ucast (le64_to_cpu (apfs_vol_uuid (s_vsb_raw (s_fs_info sb))) XOR
               le64_to_cpu (drop 8 (apfs_vol_uuid (s_vsb_raw (s_fs_info sb))))),
        ucast (drop_bit 32
              (le64_to_cpu (apfs_vol_uuid (s_vsb_raw (s_fs_info sb))) XOR
               le64_to_cpu (drop 8 (apfs_vol_uuid (s_vsb_raw (s_fs_info sb))))))) \<and>
     f_bsize buf' = s_blocksize sb \<and> f_type buf' = APFS_SUPER_MAGIC h \<and>
     f_ffree buf' = f_ffree buf"
proof -
  from assms obtain used where used: "apfs_count_used_blocks h sb = Inr used"
    by (auto simp: apfs_statfs_def Let_def split: sum.splits)
  then obtain b_data vtable where
    rd: "sb_bread h (s_blocksize sb) (nx_omap_oid (s_msb_raw (s_fs_info sb))) = Some b_data"
    and tb: "apfs_read_table h (om_tree_oid (as_omap_phys h b_data)) = Inr vtable"
    and cnt: "count_records h sb vtable [0 ..< t_records vtable] 0 = Inr used"
    by (auto simp: apfs_count_used_blocks_def Let_def split: option.splits sum.splits)
  from count_records_total [OF cnt]
  have sum: "used = sum_list (map (vsb_alloc_count h sb vtable) [0 ..< t_records vtable])"
    and ok: "\<forall>i < t_records vtable.
        fst (apfs_table_locate_data h vtable i) = 16 \<and>
        sb_bread h (s_blocksize sb) (vsb_block h vtable i) \<noteq> None"
    by auto
  have buf': "buf' = buf\<lparr>f_type := APFS_SUPER_MAGIC h, f_bsize := s_blocksize sb,
      f_blocks := nx_block_count (s_msb_raw (s_fs_info sb)),
      f_bfree := nx_block_count (s_msb_raw (s_fs_info sb)) - used,
      f_bavail := nx_block_count (s_msb_raw (s_fs_info sb)) - used,
      f_files := apfs_num_files (s_vsb_raw (s_fs_info sb)) +
        apfs_num_directories (s_vsb_raw (s_fs_info sb)) +
        apfs_num_symlinks (s_vsb_raw (s_fs_info sb)) +
        apfs_num_other_fsobjects (s_vsb_raw (s_fs_info sb)),
      f_namelen := 255,
      f_fsid := (ucast (le64_to_cpu (apfs_vol_uuid (s_vsb_raw (s_fs_info sb))) XOR
               le64_to_cpu (drop 8 (apfs_vol_uuid (s_vsb_raw (s_fs_info sb))))),
        ucast (drop_bit 32
              (le64_to_cpu (apfs_vol_uuid (s_vsb_raw (s_fs_info sb))) XOR
               le64_to_cpu (drop 8 (apfs_vol_uuid (s_vsb_raw (s_fs_info sb)))))))\<rparr>"
    using assms used by (simp add: apfs_statfs_def Let_def ucast_low32 ucast_high32)
  show ?thesis
    using rd tb ok sum by (intro exI [of _ b_data] exI [of _ vtable]) (simp add: buf')
qed

theorem statfs_reports_witness:
  "apfs_statfs example_statfs_env example_sb example_kstatfs =
     (None, \<lparr>f_type = 0, f_bsize = 4096, f_blocks = 10000, f_bfree = 6500, f_bavail = 6500,
        f_files = 37, f_ffree = 0, f_fsid = (0x44332211, 0x88776655), f_namelen = 255\<rparr>)"
  using statfs_reports [of example_statfs_env example_sb example_kstatfs]
  by (simp add: apfs_statfs_def apfs_count_used_blocks_def Let_def example_defs
      statfs_example_defs le64_to_cpu_def upt_rec)

text \<open>
  C7, as stated: a record of the container's object-map node whose value is not 16 bytes
  long makes \<open>apfs_statfs\<close> fail with \<open>EFSCORRUPTED\<close>.  It does not hold: in the example
  the second record is 8 bytes long and the error is \<open>EIO\<close>.
\<close>

theorem statfs_bad_entry_counterexample:
  "fst (apfs_table_locate_data example_short_entry_env example_vtable 1) \<noteq> 16 \<and>
   fst (apfs_statfs example_short_entry_env example_sb example_kstatfs) = Some EIO \<and>
   fst (apfs_statfs example_short_entry_env example_sb example_kstatfs) \<noteq> Some EFSCORRUPTED"
  by (simp add: apfs_statfs_def apfs_count_used_blocks_def Let_def example_defs
      example_short_entry_env_def statfs_example_defs le64_to_cpu_def upt_rec)

text \<open>
  C7, amended: when the container's object map and its node have been read and some record
  of the node has a value that is not 16 bytes long, \<open>apfs_statfs\<close> fails with \<open>EIO\<close>;
  it has then written the type, the block size and the block count into the buffer and
  nothing else: no free, available or file count.
\<close>

theorem statfs_bad_entry_length:
  assumes "sb_bread h (s_blocksize sb) (nx_omap_oid (s_msb_raw (s_fs_info sb))) = Some b_data"
    and "apfs_read_table h (om_tree_oid (as_omap_phys h b_data)) = Inr vtable"
    and "i < t_records vtable"
    and "fst (apfs_table_locate_data h vtable i) \<noteq> 16"
  shows "apfs_statfs h sb buf =
     (Some EIO, buf\<lparr>f_type := APFS_SUPER_MAGIC h, f_bsize := s_blocksize sb,
                    f_blocks := nx_block_count (s_msb_raw (s_fs_info sb))\<rparr>)"
proof -
  have "count_records h sb vtable [0 ..< t_records vtable] 0 = Inl EIO"
    using assms(3,4) by (intro count_records_bad_length [of i]) simp_all
  then have "apfs_count_used_blocks h sb = Inl EIO"
    using assms(1,2) by (simp add: apfs_count_used_blocks_def Let_def)
  then show ?thesis
    by (simp add: apfs_statfs_def Let_def)
qed

theorem statfs_bad_entry_length_witness:
  "sb_bread example_short_entry_env (s_blocksize example_sb)
      (nx_omap_oid (s_msb_raw (s_fs_info example_sb))) = Some [50] \<and>
   apfs_read_table example_short_entry_env
      (om_tree_oid (as_omap_phys example_short_entry_env [50])) = Inr example_vtable \<and>
   (1::nat) < t_records example_vtable \<and>
   fst (apfs_table_locate_data example_short_entry_env example_vtable 1) \<noteq> 16 \<and>
   apfs_statfs example_short_entry_env example_sb example_kstatfs =
     (Some EIO, example_kstatfs\<lparr>f_bsize := 4096, f_blocks := 10000\<rparr>)"
  using statfs_bad_entry_length [of example_short_entry_env example_sb "[50]" example_vtable 1
      example_kstatfs]
  by (simp add: example_short_entry_env_def example_defs statfs_example_defs)

section \<open>Properties of the checksum\<close>

lemma or_push_bit_nat:
  fixes m k :: nat
  assumes "m < 2 ^ n"
  shows "m OR push_bit n k = m + push_bit n k"
proof -
  have "m + push_bit n k = m OR push_bit n k"
  proof (rule disjunctive_add)
    fix i
    show "\<not> bit m i \<or> \<not> bit (push_bit n k) i"
    proof (cases "i < n")
      case True
      then show ?thesis by (simp add: bit_push_bit_iff)
    next
      case False
      then have "2 ^ n \<le> (2::nat) ^ i" by simp
      with assms have "m < 2 ^ i" by linarith
      then have "\<not> bit m i" by (simp add: bit_iff_odd)
      then show ?thesis ..
    qed
  qed
  then show ?thesis by simp
qed

lemma unat_byte_or_push:
  fixes w :: u32 and b :: byte
  assumes "unat w < 2 ^ 24"
  shows "unat (ucast b OR push_bit 8 w :: u32) = unat b + 2 ^ 8 * unat w"
proof -
  have b: "unat b < 2 ^ 8"
    using unsigned_less [of b] by simp
  have "unat (ucast b :: u32) = unat b"
    using b by (simp add: unsigned_ucast_eq take_bit_nat_eq_self)
  moreover have "unat (push_bit 8 w) = push_bit 8 (unat w)"
  proof -
    have "unat (push_bit 8 w) = take_bit LENGTH(32) (push_bit 8 (unat w))"
      by (fact unsigned_push_bit_eq)
    also have "\<dots> = push_bit 8 (unat w)"
      using assms by (simp add: take_bit_nat_eq_self push_bit_eq_mult)
    finally show ?thesis .
  qed
  ultimately have "unat (ucast b OR push_bit 8 w :: u32) = unat b OR push_bit 8 (unat w)"
    by (simp add: unsigned_or_eq)
  also have "\<dots> = unat b + push_bit 8 (unat w)"
    using b by (rule or_push_bit_nat)
  finally show ?thesis by (simp add: push_bit_eq_mult)
qed

lemma unat_le32_to_cpu:
  "unat (le32_to_cpu (b0 # b1 # b2 # b3 # bs)) =
     unat b0 + 2 ^ 8 * unat b1 + 2 ^ 16 * unat b2 + 2 ^ 24 * unat b3"
proof -
  have b: "unat b < 2 ^ 8" for b :: byte
    using unsigned_less [of b] by simp
  have 3: "unat (ucast b3 OR push_bit 8 0 :: u32) = unat b3"
    using unat_byte_or_push [of 0 b3] by simp
  have 2: "unat (ucast b2 OR push_bit 8 (ucast b3 OR push_bit 8 0) :: u32)
             = unat b2 + 2 ^ 8 * unat b3"
    using unat_byte_or_push [of "ucast b3 OR push_bit 8 0" b2] b [of b3] 3 by simp
  have 1: "unat (ucast b1 OR push_bit 8 (ucast b2 OR push_bit 8 (ucast b3 OR push_bit 8 0)) :: u32)
             = unat b1 + 2 ^ 8 * (unat b2 + 2 ^ 8 * unat b3)"
    using unat_byte_or_push [of "ucast b2 OR push_bit 8 (ucast b3 OR push_bit 8 0)" b1]
      b [of b2] b [of b3] 2 by simp
  have 0: "unat (ucast b0 OR push_bit 8 (ucast b1 OR
              push_bit 8 (ucast b2 OR push_bit 8 (ucast b3 OR push_bit 8 0))) :: u32)
             = unat b0 + 2 ^ 8 * (unat b1 + 2 ^ 8 * (unat b2 + 2 ^ 8 * unat b3))"
    using unat_byte_or_push [of "ucast b1 OR push_bit 8 (ucast b2 OR
        push_bit 8 (ucast b3 OR push_bit 8 0))" b0]
      b [of b1] b [of b2] b [of b3] 1 by simp
  show ?thesis
    using 0 by (simp add: le32_to_cpu_def)
qed

lemma length_le32_words: "length (le32_words bs) = length bs div 4"
  by (induction bs rule: le32_words.induct) simp_all

lemma nth_le32_words:
  "i < length (le32_words bs) \<Longrightarrow> unat (buff_at bs i) = le32_words bs ! i"
proof (induction bs arbitrary: i rule: le32_words.induct)
  case (1 b0 b1 b2 b3 bs)
  show ?case
  proof (cases i)
    case 0
    then show ?thesis
      using unat_le32_to_cpu [of b0 b1 b2 b3 bs] by (simp add: buff_at_def)
  next
    case (Suc j)
    with "1.prems" have "j < length (le32_words bs)" by simp
    then have "unat (buff_at bs j) = le32_words bs ! j" by (rule "1.IH")
    moreover have "4 * Suc j = Suc (Suc (Suc (Suc (4 * j))))" by simp
    then have "drop (4 * Suc j) (b0 # b1 # b2 # b3 # bs) = drop (4 * j) bs"
      by (simp only: drop_Suc_Cons)
    ultimately show ?thesis
      using Suc by (simp only: buff_at_def le32_words.simps nth_Cons_Suc)
  qed
qed simp_all

lemma le32_words_bound: "w \<in> set (le32_words bs) \<Longrightarrow> w \<le> 4294967295"
proof (induction bs rule: le32_words.induct)
  case (1 b0 b1 b2 b3 bs)
  have b: "unat b < 2 ^ 8" for b :: byte
    using unsigned_less [of b] by simp
  from "1.prems" show ?case
    using "1.IH" b [of b0] b [of b1] b [of b2] b [of b3] by auto
qed simp_all


lemma ref_sums_append: "ref_sums (xs @ ys) s = ref_sums ys (ref_sums xs s)"
  by (induction xs arbitrary: s) simp_all

text \<open>The 64-bit sums of the loop are the sums over the numbers, modulo \<open>2 ^ 64\<close>.\<close>

lemma fold_fletcher_step:
  "m \<le> length (le32_words bs) \<Longrightarrow>
     fold (fletcher_step bs) [0 ..< m] (0, 0) =
       (of_nat (fst (ref_sums (take m (le32_words bs)) (0, 0))),
        of_nat (snd (ref_sums (take m (le32_words bs)) (0, 0))))"
proof (induction m)
  case 0
  then show ?case by simp
next
  case (Suc m)
  then have m: "m < length (le32_words bs)" by simp
  have w: "(ucast (buff_at bs m) :: u64) = of_nat (le32_words bs ! m)"
    using nth_le32_words [OF m] by (metis of_nat_unat)
  have t: "take (Suc m) (le32_words bs) = take m (le32_words bs) @ [le32_words bs ! m]"
    using m by (rule take_Suc_conv_app_nth)
  from Suc.IH m show ?case
    by (simp add: t ref_sums_append fletcher_step_def Let_def w)
qed

lemma ref_sums_bound:
  assumes "\<forall>w \<in> set ws. w \<le> M"
  shows "fst (ref_sums ws (a, b)) \<le> a + M * length ws \<and>
         2 * snd (ref_sums ws (a, b)) \<le>
           2 * b + 2 * length ws * a + M * (length ws * (length ws + 1)) \<and>
         (a \<le> b \<longrightarrow> fst (ref_sums ws (a, b)) \<le> snd (ref_sums ws (a, b)))"
  using assms
proof (induction ws arbitrary: a b)
  case Nil
  then show ?case by simp
next
  case (Cons w ws)
  let ?k = "length ws"
  let ?r = "ref_sums ws (a + w, b + (a + w))"
  from Cons.prems have w: "w \<le> M" and ws: "\<forall>w \<in> set ws. w \<le> M" by simp_all
  note IH = Cons.IH [OF ws, of "a + w" "b + (a + w)"]
  have 1: "fst ?r \<le> a + M * (?k + 1)"
  proof -
    have "fst ?r \<le> (a + w) + M * ?k" using IH by simp
    also have "\<dots> \<le> (a + M) + M * ?k" using w by simp
    finally show ?thesis by (simp add: algebra_simps)
  qed
  have 2: "2 * snd ?r \<le> 2 * b + 2 * (?k + 1) * a + M * ((?k + 1) * (?k + 2))"
  proof -
    have "2 * snd ?r \<le> 2 * (b + (a + w)) + 2 * ?k * (a + w) + M * (?k * (?k + 1))"
      using IH by simp
    also have "\<dots> = 2 * b + 2 * (?k + 1) * a + 2 * (?k + 1) * w + M * (?k * (?k + 1))"
      by (simp add: algebra_simps)
    also have "\<dots> \<le> 2 * b + 2 * (?k + 1) * a + 2 * (?k + 1) * M + M * (?k * (?k + 1))"
    proof -
      have "2 * (?k + 1) * w \<le> 2 * (?k + 1) * M"
        using w by (rule mult_left_mono) simp
      then show ?thesis by linarith
    qed
    also have "\<dots> = 2 * b + 2 * (?k + 1) * a + M * ((?k + 1) * (?k + 2))"
      by (simp add: algebra_simps)
    finally show ?thesis .
  qed
  have 3: "fst ?r \<le> snd ?r" if "a \<le> b"
    using IH that by simp
  from 1 2 3 show ?case by simp
qed


lemma unat_of_nat64: "x < 2 ^ 64 \<Longrightarrow> unat (of_nat x :: u64) = x"
  by (simp add: unat_of_nat)

lemma unat_complement_rem:
  fixes x :: u64
  shows "unat (0xFFFFFFFF - do_div_rem x 0xFFFFFFFF) = 0xFFFFFFFF - unat x mod 0xFFFFFFFF"
proof -
  have le: "do_div_rem x 0xFFFFFFFF \<le> 0xFFFFFFFF"
    unfolding do_div_rem_def by (rule word_mod_less_divisor [THEN less_imp_le]) simp
  have "unat (0xFFFFFFFF - do_div_rem x 0xFFFFFFFF) =
          unat (0xFFFFFFFF :: u64) - unat (do_div_rem x 0xFFFFFFFF)"
    using le by (rule unat_sub)
  then show ?thesis
    by (simp add: do_div_rem_def unat_mod)
qed

text \<open>
  When the sums over the numbers fit in 64 bits, the closing steps of the code compute the
  closing steps of the reference.
\<close>

lemma unat_fletcher_finish:
  assumes fit: "s1 + s2 < 2 ^ 64" and le: "s1 \<le> s2"
  shows "unat (fletcher_finish (of_nat s1, of_nat s2)) = ref_finish (s1, s2)"
proof -
  define c1 where "c1 = 0xFFFFFFFF - (s1 + s2) mod (0xFFFFFFFF :: nat)"
  define c2 where "c2 = 0xFFFFFFFF - (s1 + c1) mod (0xFFFFFFFF :: nat)"
  define w1 :: u64 where "w1 = 0xFFFFFFFF - do_div_rem (of_nat s1 + of_nat s2) 0xFFFFFFFF"
  define w2 :: u64 where "w2 = 0xFFFFFFFF - do_div_rem (of_nat s1 + w1) 0xFFFFFFFF"
  have c1_le: "c1 \<le> 0xFFFFFFFF" and c2_le: "c2 \<le> 0xFFFFFFFF"
    by (simp_all add: c1_def c2_def)
  have "unat (of_nat s1 + of_nat s2 :: u64) = s1 + s2"
    using fit unat_of_nat64 [of "s1 + s2"] by simp
  then have w1: "unat w1 = c1"
    by (simp add: w1_def c1_def unat_complement_rem)
  have s1: "s1 < 2 ^ 63"
    using fit le by simp
  then have fit2: "s1 + c1 < 2 ^ 64"
    using c1_le by simp
  have "w1 = of_nat c1"
    using w1 by (metis of_nat_unat ucast_id)
  then have "unat (of_nat s1 + w1) = s1 + c1"
    using fit2 unat_of_nat64 [of "s1 + c1"] by simp
  then have w2: "unat w2 = c2"
    by (simp add: w2_def c2_def unat_complement_rem)
  have "unat w2 * 2 ^ 32 < 2 ^ 64"
    using c2_le w2 by simp
  then have "unat (push_bit 32 w2) = unat w2 * 2 ^ 32"
    by (rule unat_push_bit_no_overflow)
  then have "unat (push_bit 32 w2 OR w1) = push_bit 32 c2 OR c1"
    by (simp add: unsigned_or_eq w1 w2 push_bit_eq_mult)
  moreover have "fletcher_finish (of_nat s1, of_nat s2) = push_bit 32 w2 OR w1"
    by (simp add: fletcher_finish_def Let_def w1_def w2_def)
  moreover have "ref_finish (s1, s2) = push_bit 32 c2 OR c1"
    by (simp add: ref_finish_def Let_def c1_def c2_def)
  ultimately show ?thesis by simp
qed

lemma apfs_fletcher64_sums:
  "apfs_fletcher64 bs (length bs) =
     fletcher_finish (of_nat (fst (ref_sums (le32_words bs) (0, 0))),
                      of_nat (snd (ref_sums (le32_words bs) (0, 0))))"
  using fold_fletcher_step [of "length bs div 4" bs]
  by (simp add: apfs_fletcher64_def length_le32_words)

lemma apfs_fletcher64_refines:
  assumes "length bs \<le> 370720"
  shows "unat (apfs_fletcher64 bs (length bs)) = fletcher64_ref bs"
proof -
  let ?ws = "le32_words bs"
  let ?n = "length ?ws"
  let ?M = "4294967295 :: nat"
  have bound: "\<forall>w \<in> set ?ws. w \<le> ?M"
    using le32_words_bound by blast
  note B = ref_sums_bound [OF bound, of 0 0]
  have n: "?n \<le> 92680"
    using assms by (simp add: length_le32_words)
  have s1: "fst (ref_sums ?ws (0, 0)) \<le> ?M * ?n"
    and s2: "2 * snd (ref_sums ?ws (0, 0)) \<le> ?M * (?n * (?n + 1))"
    and le: "fst (ref_sums ?ws (0, 0)) \<le> snd (ref_sums ?ws (0, 0))"
    using B by simp_all
  have "2 * (fst (ref_sums ?ws (0, 0)) + snd (ref_sums ?ws (0, 0)))
          \<le> 2 * (?M * ?n) + ?M * (?n * (?n + 1))"
  proof -
    have "x \<le> p \<Longrightarrow> 2 * y \<le> q \<Longrightarrow> 2 * (x + y) \<le> 2 * p + q" for x y p q :: nat
      by simp
    from this [OF s1 s2] show ?thesis .
  qed
  also have "\<dots> = ?M * (?n * (?n + 3))"
    by (simp add: algebra_simps)
  also have "\<dots> \<le> ?M * (92680 * (92680 + 3))"
    using n by (intro mult_le_mono le_refl add_le_mono)
  also have "\<dots> < 2 * 2 ^ 64"
    by simp
  finally have fit: "fst (ref_sums ?ws (0, 0)) + snd (ref_sums ?ws (0, 0)) < 2 ^ 64"
    by simp
  show ?thesis
    using unat_fletcher_finish [OF fit le]
    by (simp add: apfs_fletcher64_sums fletcher64_ref_def)
qed


lemma le32_words_replicate:
  "le32_words (replicate (4 * n) 0xFF) = replicate n 4294967295"
proof (induction n)
  case 0
  then show ?case by simp
next
  case (Suc n)
  have "4 * Suc n = Suc (Suc (Suc (Suc (4 * n))))" by simp
  then have "replicate (4 * Suc n) (0xFF :: byte) =
      0xFF # 0xFF # 0xFF # 0xFF # replicate (4 * n) 0xFF"
    by (simp only: replicate_Suc)
  then show ?case
    using Suc.IH by simp
qed

lemma ref_sums_replicate:
  "fst (ref_sums (replicate n w) (a, b)) = a + n * w \<and>
   2 * snd (ref_sums (replicate n w) (a, b)) = 2 * b + 2 * n * a + w * (n * (n + 1))"
proof (induction n arbitrary: a b)
  case 0
  then show ?case by simp
next
  case (Suc n)
  show ?case
    using Suc.IH [of "a + w" "b + (a + w)"] by (simp add: algebra_simps)
qed

text \<open>
  C4, as stated: for every buffer whose length is a multiple of 4, \<open>apfs_fletcher64\<close> is
  the reference value.  It does not hold: the sums of the code are 64-bit and wrap around.
  For 92681 words \<open>0xFFFFFFFF\<close> (370724 bytes) \<open>sum1 + sum2\<close> passes \<open>2 ^ 64\<close>; the
  code returns \<open>0xFFFFFFFE00000001\<close> and the reference is \<open>0xFFFFFFFFFFFFFFFF\<close>.
\<close>

theorem fletcher64_overflow_counterexample:
  "length (replicate (4 * 92681) (0xFF :: byte)) mod 4 = 0 \<and>
   unat (apfs_fletcher64 (replicate (4 * 92681) 0xFF) (length (replicate (4 * 92681) (0xFF :: byte))))
     = 0xFFFFFFFE00000001 \<and>
   fletcher64_ref (replicate (4 * 92681) 0xFF) = 0xFFFFFFFFFFFFFFFF \<and>
   unat (apfs_fletcher64 (replicate (4 * 92681) 0xFF) (length (replicate (4 * 92681) (0xFF :: byte))))
     \<noteq> fletcher64_ref (replicate (4 * 92681) 0xFF)"
proof -
  let ?bs = "replicate (4 * 92681) (0xFF :: byte)"
  let ?r = "ref_sums (replicate 92681 4294967295) (0, 0)"
  have ws: "le32_words ?bs = replicate 92681 4294967295"
    by (rule le32_words_replicate)
  have s1: "fst ?r = 398061863867895"
    using ref_sums_replicate [of 92681 4294967295 0 0] by simp
  have "2 * snd ?r = 4294967295 * (92681 * (92681 + 1))"
    using ref_sums_replicate [of 92681 4294967295 0 0] by simp
  then have s2: "snd ?r = 18446584833502122195"
    by simp
  have r: "?r = (398061863867895, 18446584833502122195)"
    using s1 s2 by (simp add: prod_eq_iff)
  have "apfs_fletcher64 ?bs (length ?bs) =
      fletcher_finish (398061863867895, 18446584833502122195)"
    unfolding apfs_fletcher64_sums ws r by simp
  also have "\<dots> = 0xFFFFFFFE00000001"
    by (simp add: fletcher_finish_def do_div_rem_def Let_def)
  finally have code: "unat (apfs_fletcher64 ?bs (length ?bs)) = 0xFFFFFFFE00000001"
    by simp
  have ref: "fletcher64_ref ?bs = 0xFFFFFFFFFFFFFFFF"
    unfolding fletcher64_ref_def ws r by (simp add: ref_finish_def Let_def)
  have "length ?bs mod 4 = 0"
    by (simp only: length_replicate mod_mult_self1_is_0)
  with code ref show ?thesis by simp
qed

text \<open>
  C4, amended: for every buffer whose length is a multiple of 4 and at most 370720 bytes
  (92680 words, so that the sums stay below \<open>2 ^ 64\<close>; every block size of the format is
  far below), \<open>apfs_fletcher64\<close> is the reference value.  \<open>apfs_obj_verify_csum\<close> compares
  the stored checksum, the first 8 bytes of the object, with \<open>apfs_fletcher64\<close> of the
  bytes from offset 8 over \<open>s_blocksize - 8\<close> bytes; for an object of one block of at most
  370728 bytes that is the comparison with the reference value of bytes
  \<open>[8, block_size)\<close>.
\<close>

theorem fletcher64_matches_reference:
  "(length bs mod 4 = 0 \<and> length bs \<le> 370720 \<longrightarrow>
      unat (apfs_fletcher64 bs (length bs)) = fletcher64_ref bs) \<and>
   apfs_obj_verify_csum sb obj =
      (le64_to_cpu (take 8 obj) = apfs_fletcher64 (drop 8 obj) (unat (s_blocksize sb - 8))) \<and>
   (length obj = unat (s_blocksize sb) \<and> 8 \<le> length obj \<and> length obj mod 4 = 0 \<and>
    length obj \<le> 370728 \<longrightarrow>
      apfs_obj_verify_csum sb obj =
        (unat (le64_to_cpu (take 8 obj)) = fletcher64_ref (drop 8 obj)))"
proof -
  have v: "apfs_obj_verify_csum sb obj =
      (le64_to_cpu (take 8 obj) = apfs_fletcher64 (drop 8 obj) (unat (s_blocksize sb - 8)))"
    by (simp add: apfs_obj_verify_csum_def APFS_MAX_CKSUM_SIZE_def le64_to_cpu_def)
  have "apfs_obj_verify_csum sb obj =
        (unat (le64_to_cpu (take 8 obj)) = fletcher64_ref (drop 8 obj))"
    if len: "length obj = unat (s_blocksize sb)" and 8: "8 \<le> length obj"
      and bound: "length obj \<le> 370728"
  proof -
    have "(8 :: u64) \<le> s_blocksize sb"
      using len 8 by (simp add: word_le_nat_alt)
    then have "unat (s_blocksize sb - 8) = unat (s_blocksize sb) - unat (8 :: u64)"
      by (rule unat_sub)
    then have n: "unat (s_blocksize sb - 8) = length (drop 8 obj)"
      using len by simp
    have "length (drop 8 obj) \<le> 370720"
      using bound by simp
    then have "unat (apfs_fletcher64 (drop 8 obj) (length (drop 8 obj))) =
        fletcher64_ref (drop 8 obj)"
      by (rule apfs_fletcher64_refines)
    then show ?thesis
      unfolding v n by (metis word_unat_eq_iff)
  qed
  then show ?thesis
    using v apfs_fletcher64_refines [of bs] by blast
qed

theorem fletcher64_matches_reference_witness:
  "length [1, 0, 0, 0, 2, 0, 0, 0 :: byte] mod 4 = 0 \<and>
   length [1, 0, 0, 0, 2, 0, 0, 0 :: byte] \<le> 370720 \<and>
   apfs_fletcher64 [1, 0, 0, 0, 2, 0, 0, 0] 8 = 0x4FFFFFFF8 \<and>
   fletcher64_ref [1, 0, 0, 0, 2, 0, 0, 0] = 0x4FFFFFFF8 \<and>
   apfs_obj_verify_csum (example_sb\<lparr>s_blocksize := 16\<rparr>)
     [0xF8, 0xFF, 0xFF, 0xFF, 4, 0, 0, 0, 1, 0, 0, 0, 2, 0, 0, 0]"
  using fletcher64_matches_reference [of "[1, 0, 0, 0, 2, 0, 0, 0]"
      "example_sb\<lparr>s_blocksize := 16\<rparr>"
      "[0xF8, 0xFF, 0xFF, 0xFF, 4, 0, 0, 0, 1, 0, 0, 0, 2, 0, 0, 0]"]
  by (simp add: apfs_fletcher64_def fletcher_finish_def fletcher_step_def buff_at_def
      le32_to_cpu_def le64_to_cpu_def do_div_rem_def upt_rec fletcher64_ref_def ref_finish_def
      Let_def)

section \<open>Properties of the mount\<close>

lemma fletcher_finish_nonzero: "fletcher_finish s \<noteq> 0"
proof -
  define x where "x = do_div_rem (fst s + snd s) 0xFFFFFFFF"
  have "x < 0xFFFFFFFF"
    unfolding x_def do_div_rem_def by (rule word_mod_less_divisor) simp
  then have c1: "(0xFFFFFFFF :: u64) - x \<noteq> 0"
    by auto
  show ?thesis
    using c1 by (simp add: fletcher_finish_def Let_def x_def or_eq_0_iff)
qed

lemma apfs_fletcher64_nonzero: "apfs_fletcher64 addr n \<noteq> 0"
  by (simp add: apfs_fletcher64_def fletcher_finish_nonzero)

lemma check_main_super_error:
  "check_main_super h sb b_data = Inl err \<Longrightarrow> err = EINVAL"
  by (auto simp: check_main_super_def Let_def split: if_splits)

lemma check_main_super_mismatch:
  "le64_to_cpu b_data \<noteq>
     apfs_fletcher64 (drop APFS_MAX_CKSUM_SIZE b_data)
       (unat (s_blocksize sb - of_nat APFS_MAX_CKSUM_SIZE))
   \<Longrightarrow> check_main_super h sb b_data = Inl EINVAL"
  by (simp add: check_main_super_def Let_def apfs_obj_verify_csum_def)

lemma apfs_map_main_super_error:
  "apfs_map_main_super h sb = Inl err \<Longrightarrow> err = EINVAL"
  by (auto simp: apfs_map_main_super_def set_blocksize_def Let_def
      dest: check_main_super_error split: option.splits if_splits)

lemma set_blocksize_Some:
  "set_blocksize h sb sz = Some sb' \<Longrightarrow> s_blocksize sb' = of_int sz"
  by (auto simp: set_blocksize_def split: option.splits)

lemma check_main_super_mismatch8:
  "le64_to_cpu b_data \<noteq> apfs_fletcher64 (drop 8 b_data) (unat (s_blocksize sb - 8))
   \<Longrightarrow> check_main_super h sb b_data = Inl EINVAL"
  using check_main_super_mismatch [of b_data sb h] by (simp add: APFS_MAX_CKSUM_SIZE_def)

lemma apfs_map_main_super_mismatch2:
  assumes cs: "container_superblock h = Some (bs, b_data)"
    and bad: "le64_to_cpu b_data \<noteq> apfs_fletcher64 (drop 8 b_data) (unat (bs - 8))"
  shows "apfs_map_main_super h sb = Inl EINVAL"
proof (cases "set_blocksize h sb APFS_NX_DEFAULT_BLOCK_SIZE")
  case None
  then show ?thesis by (simp add: apfs_map_main_super_def)
next
  case (Some sb1)
  note bs1 = set_blocksize_Some [OF Some]
  from cs obtain b0 where r0:
    "sb_bread h (of_int APFS_NX_DEFAULT_BLOCK_SIZE) APFS_NX_BLOCK_NUM = Some b0"
    by (auto simp: container_superblock_def split: option.splits)
  define declared where "declared = sint (nx_block_size (as_nx_superblock h b0))"
  show ?thesis
  proof (cases "(of_int declared :: u64) = of_int APFS_NX_DEFAULT_BLOCK_SIZE")
    case True
    with cs r0 have "bs = of_int APFS_NX_DEFAULT_BLOCK_SIZE" "b_data = b0"
      by (auto simp: container_superblock_def declared_def Let_def)
    with bad bs1 have "check_main_super h sb1 b0 = Inl EINVAL"
      by (intro check_main_super_mismatch8) simp
    with Some r0 True bs1 show ?thesis
      by (simp add: apfs_map_main_super_def declared_def Let_def)
  next
    case False
    with cs r0 have r1: "sb_bread h (of_int declared) APFS_NX_BLOCK_NUM = Some b_data"
      and bs: "bs = of_int declared"
      by (auto simp: container_superblock_def declared_def Let_def split: option.splits)
    show ?thesis
    proof (cases "set_blocksize h sb1 declared")
      case None
      with Some r0 False bs1 show ?thesis
        by (simp add: apfs_map_main_super_def declared_def Let_def)
    next
      case (Some sb2)
      note bs2 = set_blocksize_Some [OF Some]
      from bad bs bs2 have "check_main_super h sb2 b_data = Inl EINVAL"
        by (intro check_main_super_mismatch8) simp
      with \<open>set_blocksize h sb APFS_NX_DEFAULT_BLOCK_SIZE = Some sb1\<close> Some r0 r1 False bs1 bs2
      show ?thesis
        by (simp add: apfs_map_main_super_def declared_def Let_def)
    qed
  qed
qed

text \<open>
  C3, as stated: a container superblock whose stored checksum is not the Fletcher-64
  checksum of its payload makes the mount fail with \<open>EFSCORRUPTED\<close>.  It does not hold:
  block 0 of the example has the magic \<open>NXSB\<close> and a stored checksum of zero, which is
  never the value of \<open>apfs_fletcher64\<close>; the mount fails with \<open>EINVAL\<close>.
\<close>

theorem mount_checksum_counterexample:
  "container_superblock example_mount_env = Some (4096, example_block0) \<and>
   nx_magic (as_nx_superblock example_mount_env example_block0) = 0x4253584E \<and>
   le64_to_cpu example_block0 \<noteq>
     apfs_fletcher64 (drop 8 example_block0) (unat ((4096 :: u64) - 8)) \<and>
   apfs_fill_super example_mount_env example_sb None = Inl EINVAL \<and>
   apfs_fill_super example_mount_env example_sb None \<noteq> Inl EFSCORRUPTED"
  using apfs_fletcher64_nonzero
  by (simp add: container_superblock_def example_mount_env_def example_block0_def example_defs
      le64_to_cpu_def
      apfs_fill_super_def apfs_map_main_super_def set_blocksize_def check_main_super_def
      apfs_obj_verify_csum_def APFS_NX_BLOCK_NUM_def APFS_NX_DEFAULT_BLOCK_SIZE_def
      APFS_NX_MAGIC_def APFS_MAX_CKSUM_SIZE_def Let_def)

text \<open>
  C3, amended: when the stored checksum of the container superblock is not the Fletcher-64
  checksum of its payload, the mount fails with \<open>EINVAL\<close> (or with \<open>ENOMEM\<close> when the
  mount state cannot be allocated, which comes first).
\<close>

theorem mount_checksum_mismatch:
  assumes "container_superblock h = Some (bs, b_data)"
    and "le64_to_cpu b_data \<noteq> apfs_fletcher64 (drop 8 b_data) (unat (bs - 8))"
  shows "apfs_fill_super h sb data =
           (if kzalloc_sbi h = None then Inl ENOMEM else Inl EINVAL)"
proof -
  have "apfs_map_main_super h sb' = Inl EINVAL" for sb'
    using assms by (rule apfs_map_main_super_mismatch2)
  then show ?thesis
    by (simp add: apfs_fill_super_def Let_def split: option.splits)
qed

theorem mount_checksum_mismatch_witness:
  "container_superblock example_mount_env = Some (4096, example_block0) \<and>
   le64_to_cpu example_block0 \<noteq>
     apfs_fletcher64 (drop 8 example_block0) (unat ((4096 :: u64) - 8)) \<and>
   apfs_fill_super example_mount_env example_sb None = Inl EINVAL"
  using mount_checksum_mismatch [of example_mount_env 4096 example_block0 example_sb None]
    apfs_fletcher64_nonzero
  by (simp add: container_superblock_def example_mount_env_def example_block0_def example_defs
      le64_to_cpu_def APFS_NX_BLOCK_NUM_def APFS_NX_DEFAULT_BLOCK_SIZE_def)

section \<open>Properties of the option parser\<close>














end
